theory Spec2Isabelle
  imports Complex_Main
begin

section \<open>Errors\<close>

text \<open>
  The exceptions the notebooks can raise: a failed \<^verbatim>\<open>assert\<close> (with its message), Python's
  \<^verbatim>\<open>ZeroDivisionError\<close> of \<^verbatim>\<open>%\<close>, \<^verbatim>\<open>ValueError\<close> and \<^verbatim>\<open>IndexError\<close>, and the
  \<^verbatim>\<open>RuntimeError\<close> the tensor library raises on incompatible shapes.
\<close>

datatype error =
  AssertionError string
  | ZeroDivisionError
  | ValueError
  | IndexError
  | RuntimeError

definition and_then :: "error + 'a \<Rightarrow> ('a \<Rightarrow> error + 'b) \<Rightarrow> error + 'b" where
  "and_then r f = (case r of Inl e \<Rightarrow> Inl e | Inr x \<Rightarrow> f x)"

section \<open>Dense tensors\<close>

text \<open>
  A tensor is its shape and its elements in row-major (contiguous) order, which is what
  \<^verbatim>\<open>view\<close> reinterprets. Elements are real numbers: rounding, overflow and underflow of
  the 32-bit floats of the library are not part of this model. In particular the weight
  that softmax gives to a masked score of \<open>- 1e9\<close>, which the floats round to exactly 0
  when the other scores of the row are of ordinary size, is a positive real here. The
  statements about sums of attention weights are therefore made up to a tolerance, and
  for inputs and parameters bounded in absolute value, where the floats cannot overflow.
\<close>

record tensor =
  shape :: "nat list"
  data :: "real list"

definition well_shaped :: "tensor \<Rightarrow> bool" where
  "well_shaped t \<longleftrightarrow> length (data t) = prod_list (shape t)"

text \<open>The offset of a multi-index in row-major order.\<close>

fun ravel :: "nat list \<Rightarrow> nat list \<Rightarrow> nat" where
  "ravel (d # ds) (i # js) = i * prod_list ds + ravel ds js"
| "ravel _ _ = 0"

text \<open>All multi-indices of a shape, in row-major order.\<close>

fun indices :: "nat list \<Rightarrow> nat list list" where
  "indices [] = [[]]"
| "indices (d # ds) = concat (map (\<lambda>i. map ((#) i) (indices ds)) [0..<d])"

definition in_range :: "nat list \<Rightarrow> nat list \<Rightarrow> bool" where
  "in_range s idx \<longleftrightarrow> list_all2 (<) idx s"

definition get :: "tensor \<Rightarrow> nat list \<Rightarrow> real" where
  "get t idx = data t ! ravel (shape t) idx"

definition tabulate :: "nat list \<Rightarrow> (nat list \<Rightarrow> real) \<Rightarrow> tensor" where
  "tabulate s f = \<lparr>shape = s, data = map f (indices s)\<rparr>"

section \<open>Primitives of the tensor library\<close>

text \<open>
  The notebooks call the tensor library for every array operation. The operations are
  modelled after the library's documented behaviour, with every shape check it makes as
  an error branch.
\<close>

subsection \<open>Dimensions and broadcasting\<close>

text \<open>A dimension argument may count from the end (\<^verbatim>\<open>-1\<close> is the last dimension).\<close>

definition wrap_dim :: "nat \<Rightarrow> int \<Rightarrow> error + nat" where
  "wrap_dim rank d =
     (if - int rank \<le> d \<and> d < int rank then Inr (nat (if d < 0 then d + int rank else d))
      else Inl IndexError)"

definition broadcast_dim :: "nat \<Rightarrow> nat \<Rightarrow> nat option" where
  "broadcast_dim a b =
     (if a = b then Some a else if a = 1 then Some b else if b = 1 then Some a else None)"

text \<open>Broadcasting aligns shapes at their last dimension: the recursion runs on reversed shapes.\<close>

fun broadcast_rev :: "nat list \<Rightarrow> nat list \<Rightarrow> nat list option" where
  "broadcast_rev [] ys = Some ys"
| "broadcast_rev (x # xs) [] = Some (x # xs)"
| "broadcast_rev (x # xs) (y # ys) =
     (case broadcast_dim x y of
        None \<Rightarrow> None
      | Some d \<Rightarrow> map_option ((#) d) (broadcast_rev xs ys))"

definition broadcast_shapes :: "nat list \<Rightarrow> nat list \<Rightarrow> nat list option" where
  "broadcast_shapes s1 s2 = map_option rev (broadcast_rev (rev s1) (rev s2))"

fun expand_rev :: "nat list \<Rightarrow> nat list \<Rightarrow> nat list" where
  "expand_rev (d # ds) (i # js) = (if d = 1 then 0 else i) # expand_rev ds js"
| "expand_rev _ _ = []"

text \<open>
  The element of a tensor of shape \<open>s\<close> that an index of the broadcast shape reads:
  a dimension of size 1 is read at 0, and leading dimensions \<open>s\<close> lacks are dropped.
\<close>

definition expand_index :: "nat list \<Rightarrow> nat list \<Rightarrow> nat list" where
  "expand_index s idx = rev (expand_rev (rev s) (rev idx))"

subsection \<open>Reshaping\<close>

text \<open>
  \<^verbatim>\<open>Tensor.view\<close>: the same elements under a new shape. One dimension may be \<^verbatim>\<open>-1\<close>
  and is then inferred; the library refuses to infer it when the other dimensions
  multiply to zero.
\<close>

definition view :: "tensor \<Rightarrow> int list \<Rightarrow> error + tensor" where
  "view t spec =
     (let n = prod_list (shape t);
          known = filter (\<lambda>d. d \<noteq> - 1) spec;
          newsize = prod_list known
      in if (\<exists>d \<in> set spec. d < - 1) \<or> length known + 1 < length spec then Inl RuntimeError
         else if length known = length spec then
           (if int n = newsize then Inr \<lparr>shape = map nat spec, data = data t\<rparr>
            else Inl RuntimeError)
         else if 0 < newsize \<and> int n mod newsize = 0 then
           Inr \<lparr>shape = map (\<lambda>d. if d = - 1 then n div nat newsize else nat d) spec,
                data = data t\<rparr>
         else Inl RuntimeError)"

text \<open>\<^verbatim>\<open>Tensor.contiguous\<close>: tensors of the model are always stored in row-major order.\<close>

definition contiguous :: "tensor \<Rightarrow> tensor" where
  "contiguous t = t"

fun index_of :: "nat \<Rightarrow> nat list \<Rightarrow> nat" where
  "index_of k [] = 0"
| "index_of k (d # ds) = (if d = k then 0 else Suc (index_of k ds))"

text \<open>\<^verbatim>\<open>Tensor.permute\<close>: dimension \<open>k\<close> of the result is dimension \<open>dims ! k\<close> of the input.\<close>

definition permute :: "tensor \<Rightarrow> nat list \<Rightarrow> error + tensor" where
  "permute t dims =
     (if sort dims = [0..<length (shape t)] then
        Inr (tabulate (map ((!) (shape t)) dims)
               (\<lambda>idx. get t (map (\<lambda>k. idx ! index_of k dims) [0..<length dims])))
      else Inl RuntimeError)"

text \<open>\<^verbatim>\<open>Tensor.transpose(dim0, dim1)\<close>: the two dimensions swapped.\<close>

definition transpose_dims :: "tensor \<Rightarrow> int \<Rightarrow> int \<Rightarrow> error + tensor" where
  "transpose_dims t dim0 dim1 =
     and_then (wrap_dim (length (shape t)) dim0) (\<lambda>d0.
     and_then (wrap_dim (length (shape t)) dim1) (\<lambda>d1.
       Inr (tabulate ((shape t)[d0 := shape t ! d1, d1 := shape t ! d0])
              (\<lambda>idx. get t (idx[d0 := idx ! d1, d1 := idx ! d0])))))"

definition chunks :: "nat \<Rightarrow> 'a list \<Rightarrow> 'a list list" where
  "chunks n xs = map (\<lambda>i. take n (drop (i * n) xs)) [0..<length xs div n]"

text \<open>
  \<^verbatim>\<open>torch.repeat_interleave(t, repeats, dim)\<close>: every slice along \<open>dim\<close> is written
  \<open>repeats\<close> times in a row. In row-major order a slice along \<open>dim\<close> is a block of
  \<open>prod_list (drop (Suc dim) (shape t))\<close> consecutive elements.
\<close>

definition repeat_interleave :: "tensor \<Rightarrow> nat \<Rightarrow> nat \<Rightarrow> error + tensor" where
  "repeat_interleave t repeats axis =
     (if axis < length (shape t) then
        Inr \<lparr>shape = (shape t)[axis := shape t ! axis * repeats],
             data = concat (map (\<lambda>block. concat (replicate repeats block))
                      (chunks (prod_list (drop (Suc axis) (shape t))) (data t)))\<rparr>
      else Inl IndexError)"

subsection \<open>Arithmetic\<close>

text \<open>
  \<^verbatim>\<open>t / c\<close>. A division by zero, which gives \<open>nan\<close> or an infinity in the library, has
  the value 0 here: the statements that depend on the scores take the dimension under
  the square root positive.
\<close>

definition div_scalar :: "tensor \<Rightarrow> real \<Rightarrow> tensor" where
  "div_scalar t c = \<lparr>shape = shape t, data = map (\<lambda>x. x / c) (data t)\<rparr>"

text \<open>\<^verbatim>\<open>t == c\<close>: the boolean tensor is stored as 1 (true) and 0 (false).\<close>

definition eq_scalar :: "tensor \<Rightarrow> real \<Rightarrow> tensor" where
  "eq_scalar t c = \<lparr>shape = shape t, data = map (\<lambda>x. if x = c then 1 else 0) (data t)\<rparr>"

text \<open>
  \<^verbatim>\<open>Tensor.masked_fill(mask, c)\<close> (the out-of-place form): tensor and mask are broadcast
  against each other, and \<open>c\<close> is written where the mask is true.
\<close>

definition masked_fill :: "tensor \<Rightarrow> tensor \<Rightarrow> real \<Rightarrow> error + tensor" where
  "masked_fill t m c =
     (case broadcast_shapes (shape t) (shape m) of
        None \<Rightarrow> Inl RuntimeError
      | Some s \<Rightarrow>
          Inr (tabulate s (\<lambda>idx. if get m (expand_index (shape m) idx) \<noteq> 0 then c
                                  else get t (expand_index (shape t) idx))))"

text \<open>
  \<^verbatim>\<open>torch.matmul\<close> on tensors of rank at least 2, the only case the notebooks reach: a
  matrix product over the last two dimensions, the leading dimensions broadcast.
\<close>

definition matmul :: "tensor \<Rightarrow> tensor \<Rightarrow> error + tensor" where
  "matmul a b =
     (let ra = length (shape a); rb = length (shape b)
      in if ra < 2 \<or> rb < 2 then Inl RuntimeError
         else
           let n = shape a ! (ra - 2); k = shape a ! (ra - 1);
               k' = shape b ! (rb - 2); m = shape b ! (rb - 1);
               ba = take (ra - 2) (shape a); bb = take (rb - 2) (shape b)
           in if k \<noteq> k' then Inl RuntimeError
              else case broadcast_shapes ba bb of
                None \<Rightarrow> Inl RuntimeError
              | Some bs \<Rightarrow>
                  Inr (tabulate (bs @ [n, m])
                        (\<lambda>idx. let bi = take (length bs) idx;
                                   i = idx ! length bs; j = idx ! Suc (length bs)
                               in \<Sum>l\<leftarrow>[0..<k]. get a (expand_index ba bi @ [i, l])
                                                 * get b (expand_index bb bi @ [l, j]))))"

text \<open>\<^verbatim>\<open>torch.bmm\<close>: both arguments of rank 3 with the same batch size.\<close>

definition bmm :: "tensor \<Rightarrow> tensor \<Rightarrow> error + tensor" where
  "bmm a b =
     (case (shape a, shape b) of
        ([ba, n, k], [bb, k', m]) \<Rightarrow>
          if ba = bb \<and> k = k' then
            Inr (tabulate [ba, n, m]
                  (\<lambda>idx. \<Sum>l\<leftarrow>[0..<k]. get a [idx ! 0, idx ! 1, l] * get b [idx ! 0, l, idx ! 2]))
          else Inl RuntimeError
      | _ \<Rightarrow> Inl RuntimeError)"

text \<open>
  \<^verbatim>\<open>F.softmax(t, dim)\<close>: \<open>exp\<close> of each element over the sum of \<open>exp\<close> along \<open>dim\<close>. Over
  the reals every weight is positive; the floats of the library underflow to exactly 0
  for a score far below the largest of its row.
\<close>

definition softmax :: "tensor \<Rightarrow> int \<Rightarrow> error + tensor" where
  "softmax t axis =
     (if shape t = [] then
        (if axis = 0 \<or> axis = - 1 then Inr (tabulate [] (\<lambda>idx. exp (get t idx) / exp (get t idx)))
         else Inl IndexError)
      else
        and_then (wrap_dim (length (shape t)) axis) (\<lambda>d.
          Inr (tabulate (shape t)
                (\<lambda>idx. exp (get t idx) / (\<Sum>j\<leftarrow>[0..<shape t ! d]. exp (get t (idx[d := j])))))))"

text \<open>
  \<^verbatim>\<open>nn.Dropout\<close>: the identity when the probability is 0, the module is not in training
  mode or the tensor is empty; zero when the probability is 1; otherwise each element is
  multiplied by a Bernoulli draw divided by \<open>1 - p\<close>. The library takes the draw from its
  global random generator: here it is the argument \<open>keep\<close>, one boolean per position.
\<close>

definition dropout :: "real \<Rightarrow> bool \<Rightarrow> (nat list \<Rightarrow> bool) \<Rightarrow> tensor \<Rightarrow> tensor" where
  "dropout p train keep t =
     (if p = 0 \<or> \<not> train \<or> prod_list (shape t) = 0 then t
      else if p = 1 then tabulate (shape t) (\<lambda>idx. 0)
      else tabulate (shape t) (\<lambda>idx. get t idx * ((if keep idx then 1 else 0) / (1 - p))))"

definition ones :: "nat list \<Rightarrow> tensor" where
  "ones s = tabulate s (\<lambda>idx. 1)"

text \<open>\<^verbatim>\<open>torch.tril\<close>: the elements on and below the main diagonal of the last two dimensions.\<close>

definition tril :: "tensor \<Rightarrow> error + tensor" where
  "tril t =
     (let r = length (shape t)
      in if r < 2 then Inl RuntimeError
         else Inr (tabulate (shape t)
                    (\<lambda>idx. if idx ! (r - 1) \<le> idx ! (r - 2) then get t idx else 0)))"

subsection \<open>Linear layers\<close>

text \<open>
  \<^verbatim>\<open>nn.Linear(n_in, n_out)\<close> holds a weight of shape \<open>[n_out, n_in]\<close> and a bias of shape
  \<open>[n_out]\<close>. The library fills them with random numbers, which a training procedure may
  change later: \<open>init\<close> stands for their values.
\<close>

record Linear =
  weight :: tensor
  bias :: tensor

definition nn_Linear :: "nat \<Rightarrow> nat \<Rightarrow> (nat \<Rightarrow> real) \<Rightarrow> Linear" where
  "nn_Linear n_in n_out init =
     \<lparr>weight = \<lparr>shape = [n_out, n_in], data = map init [0..<n_out * n_in]\<rparr>,
      bias = \<lparr>shape = [n_out], data = map (\<lambda>n. init (n_out * n_in + n)) [0..<n_out]\<rparr>\<rparr>"

definition Linear_forward :: "Linear \<Rightarrow> tensor \<Rightarrow> error + tensor" where
  "Linear_forward L x =
     (case shape (weight L) of
        [n_out, n_in] \<Rightarrow>
          if shape x \<noteq> [] \<and> last (shape x) = n_in then
            Inr (tabulate (butlast (shape x) @ [n_out])
                  (\<lambda>idx. (\<Sum>l\<leftarrow>[0..<n_in]. get x (butlast idx @ [l]) * get (weight L) [last idx, l])
                         + get (bias L) [last idx]))
          else Inl RuntimeError
      | _ \<Rightarrow> Inl RuntimeError)"

section \<open>Multi-head attention (MultiHeadAttention.ipynb)\<close>

record MultiHeadAttention =
  d_model :: nat
  num_heads :: nat
  d_k :: nat
  query_proj :: Linear
  key_proj :: Linear
  value_proj :: Linear
  output_proj :: Linear
  dropout_p :: real
  training :: bool

text \<open>
  \<^verbatim>\<open>__init__(self, d_model, num_heads, dropout=0.1)\<close>. The remainder \<^verbatim>\<open>%\<close> raises on a
  zero divisor before the assertion is evaluated; \<^verbatim>\<open>nn.Dropout\<close> rejects a probability
  outside \<open>[0, 1]\<close>. A new module is in training mode. \<open>init k\<close> gives the initial
  parameters of the \<open>k\<close>-th linear layer.
\<close>

definition MultiHeadAttention_init ::
  "nat \<Rightarrow> nat \<Rightarrow> real \<Rightarrow> (nat \<Rightarrow> nat \<Rightarrow> real) \<Rightarrow> error + MultiHeadAttention" where
  "MultiHeadAttention_init dm nh p init =
     (if nh = 0 then Inl ZeroDivisionError
      else if dm mod nh \<noteq> 0 then Inl (AssertionError ''d_model must be divisible by num_heads'')
      else if p < 0 \<or> 1 < p then Inl ValueError
      else Inr \<lparr>d_model = dm, num_heads = nh, d_k = dm div nh,
                query_proj = nn_Linear dm dm (init 0),
                key_proj = nn_Linear dm dm (init 1),
                value_proj = nn_Linear dm dm (init 2),
                output_proj = nn_Linear dm dm (init 3),
                dropout_p = p, training = True\<rparr>)"

definition split_heads :: "MultiHeadAttention \<Rightarrow> tensor \<Rightarrow> nat \<Rightarrow> error + tensor" where
  "split_heads self x batch_size =
     and_then (view x [int batch_size, - 1, int (MultiHeadAttention.num_heads self),
                       int (MultiHeadAttention.d_k self)])
       (\<lambda>x. permute x [0, 2, 1, 3])"

text \<open>
  The recombination of the heads at the end of \<^verbatim>\<open>forward\<close>
  (\<^verbatim>\<open>context.permute(0, 2, 1, 3).contiguous()\<close>, then \<^verbatim>\<open>view(batch_size, -1, self.d_model)\<close>).
\<close>

definition merge_heads :: "MultiHeadAttention \<Rightarrow> tensor \<Rightarrow> nat \<Rightarrow> error + tensor" where
  "merge_heads self context batch_size =
     and_then (permute context [0, 2, 1, 3])
       (\<lambda>context. view (contiguous context)
                    [int batch_size, - 1, int (MultiHeadAttention.d_model self)])"

text \<open>
  \<^verbatim>\<open>forward(self, query, key, value, mask=None)\<close>, with the draw of the dropout layer as
  the argument \<open>keep\<close>. It returns the output and the attention weights.
\<close>

definition MultiHeadAttention_forward ::
  "MultiHeadAttention \<Rightarrow> tensor \<Rightarrow> tensor \<Rightarrow> tensor \<Rightarrow> tensor option \<Rightarrow> (nat list \<Rightarrow> bool)
    \<Rightarrow> error + tensor \<times> tensor" where
  "MultiHeadAttention_forward self query key value mask_t keep =
     (case shape query of
        [] \<Rightarrow> Inl IndexError
      | batch_size # _ \<Rightarrow>
          and_then (Linear_forward (MultiHeadAttention.query_proj self) query) (\<lambda>q.
          and_then (split_heads self q batch_size) (\<lambda>Q.
          and_then (Linear_forward (MultiHeadAttention.key_proj self) key) (\<lambda>k.
          and_then (split_heads self k batch_size) (\<lambda>K.
          and_then (Linear_forward (MultiHeadAttention.value_proj self) value) (\<lambda>v.
          and_then (split_heads self v batch_size) (\<lambda>V.
          and_then (transpose_dims K (- 2) (- 1)) (\<lambda>Kt.
          and_then (matmul Q Kt) (\<lambda>QK.
          and_then
            (let scores = div_scalar QK (sqrt (real (MultiHeadAttention.d_k self)))
             in case mask_t of
                  None \<Rightarrow> Inr scores
                | Some m \<Rightarrow> masked_fill scores (eq_scalar m 0) (- 1000000000)) (\<lambda>scores.
          and_then (softmax scores (- 1)) (\<lambda>attention_weights.
          let attention_weights =
                dropout (MultiHeadAttention.dropout_p self) (MultiHeadAttention.training self)
                  keep attention_weights
          in and_then (matmul attention_weights V) (\<lambda>context.
             and_then (merge_heads self context batch_size) (\<lambda>context.
             and_then (Linear_forward (MultiHeadAttention.output_proj self) context) (\<lambda>output.
               Inr (output, attention_weights)))))))))))))))"

text \<open>
  The scaled scores \<^verbatim>\<open>torch.matmul(Q, K.transpose(-2, -1)) / np.sqrt(self.d_k)\<close> that
  \<^verbatim>\<open>forward\<close> computes from \<open>query\<close> and \<open>key\<close> before it applies the mask.
\<close>

definition MultiHeadAttention_scores ::
  "MultiHeadAttention \<Rightarrow> tensor \<Rightarrow> tensor \<Rightarrow> error + tensor" where
  "MultiHeadAttention_scores self query key =
     (case shape query of
        [] \<Rightarrow> Inl IndexError
      | batch_size # _ \<Rightarrow>
          and_then (Linear_forward (MultiHeadAttention.query_proj self) query) (\<lambda>q.
          and_then (split_heads self q batch_size) (\<lambda>Q.
          and_then (Linear_forward (MultiHeadAttention.key_proj self) key) (\<lambda>k.
          and_then (split_heads self k batch_size) (\<lambda>K.
          and_then (transpose_dims K (- 2) (- 1)) (\<lambda>Kt.
          and_then (matmul Q Kt) (\<lambda>QK.
            Inr (div_scalar QK (sqrt (real (MultiHeadAttention.d_k self)))))))))))"


section \<open>Grouped-query attention (README.md, first notebook)\<close>

record GroupedQueryAttention =
  d_model :: nat
  num_query_heads :: nat
  num_kv_heads :: nat
  kv_groups :: nat
  d_qk :: nat
  d_v :: nat
  query_proj :: Linear
  key_proj :: Linear
  value_proj :: Linear
  output_proj :: Linear
  dropout_p :: real
  training :: bool

text \<open>
  \<^verbatim>\<open>__init__(self, d_model, num_query_heads, num_kv_heads, dropout=0.1)\<close>: three assertions
  in the source's order, each \<^verbatim>\<open>%\<close> raising on a zero divisor first.
\<close>

definition GroupedQueryAttention_init ::
  "nat \<Rightarrow> nat \<Rightarrow> nat \<Rightarrow> real \<Rightarrow> (nat \<Rightarrow> nat \<Rightarrow> real) \<Rightarrow> error + GroupedQueryAttention" where
  "GroupedQueryAttention_init dm nq nkv p init =
     (if nq = 0 then Inl ZeroDivisionError
      else if dm mod nq \<noteq> 0 then
        Inl (AssertionError ''d_model must be divisible by num_query_heads'')
      else if nkv = 0 then Inl ZeroDivisionError
      else if dm mod nkv \<noteq> 0 then
        Inl (AssertionError ''d_model must be divisible by num_kv_heads'')
      else if nq mod nkv \<noteq> 0 then
        Inl (AssertionError ''num_query_heads must be a multiple of num_kv_heads'')
      else if p < 0 \<or> 1 < p then Inl ValueError
      else Inr \<lparr>d_model = dm, num_query_heads = nq, num_kv_heads = nkv,
                kv_groups = nq div nkv, d_qk = dm div nq, d_v = dm div nkv,
                query_proj = nn_Linear dm dm (init 0),
                key_proj = nn_Linear dm (dm div nq * nkv) (init 1),
                value_proj = nn_Linear dm (dm div nq * nkv) (init 2),
                output_proj = nn_Linear dm dm (init 3),
                dropout_p = p, training = True\<rparr>)"

text \<open>
  The expansion of Key or Value in \<^verbatim>\<open>forward\<close>
  (\<^verbatim>\<open>torch.repeat_interleave(k, self.kv_groups, dim=1)\<close>).
\<close>

definition expand_kv :: "GroupedQueryAttention \<Rightarrow> tensor \<Rightarrow> error + tensor" where
  "expand_kv self k = repeat_interleave k (GroupedQueryAttention.kv_groups self) 1"

definition GroupedQueryAttention_forward ::
  "GroupedQueryAttention \<Rightarrow> tensor \<Rightarrow> tensor \<Rightarrow> tensor \<Rightarrow> tensor option \<Rightarrow> (nat list \<Rightarrow> bool)
    \<Rightarrow> error + tensor \<times> tensor" where
  "GroupedQueryAttention_forward self query key value mask_t keep =
     (case shape query of
        batch_size # seq_len_q # _ \<Rightarrow>
          (case shape key of
             _ # seq_len_k # _ \<Rightarrow>
               and_then (Linear_forward (GroupedQueryAttention.query_proj self) query) (\<lambda>q.
               and_then (Linear_forward (GroupedQueryAttention.key_proj self) key) (\<lambda>k.
               and_then (Linear_forward (GroupedQueryAttention.value_proj self) value) (\<lambda>v.
               and_then (view q [int batch_size, int seq_len_q,
                                 int (num_query_heads self), int (d_qk self)]) (\<lambda>q.
               and_then (transpose_dims q 1 2) (\<lambda>q.
               and_then (view k [int batch_size, int seq_len_k,
                                 int (num_kv_heads self), int (d_qk self)]) (\<lambda>k.
               and_then (transpose_dims k 1 2) (\<lambda>k.
               and_then (view v [int batch_size, int seq_len_k,
                                 int (num_kv_heads self), int (d_qk self)]) (\<lambda>v.
               and_then (transpose_dims v 1 2) (\<lambda>v.
               and_then (expand_kv self k) (\<lambda>k.
               and_then (expand_kv self v) (\<lambda>v.
               and_then (transpose_dims k (- 2) (- 1)) (\<lambda>kt.
               and_then (matmul q kt) (\<lambda>qk.
               and_then
                 (let scores = div_scalar qk (sqrt (real (d_qk self)))
                  in case mask_t of
                       None \<Rightarrow> Inr scores
                     | Some m \<Rightarrow> masked_fill scores (eq_scalar m 0) (- 1000000000)) (\<lambda>scores.
               and_then (softmax scores (- 1)) (\<lambda>attention_weights.
               let attention_weights =
                     dropout (GroupedQueryAttention.dropout_p self)
                       (GroupedQueryAttention.training self) keep attention_weights
               in and_then (matmul attention_weights v) (\<lambda>context.
                  and_then (transpose_dims context 1 2) (\<lambda>context.
                  and_then (view (contiguous context)
                              [int batch_size, int seq_len_q,
                               int (GroupedQueryAttention.d_model self)]) (\<lambda>context.
                  and_then (Linear_forward (GroupedQueryAttention.output_proj self) context)
                    (\<lambda>output. Inr (output, attention_weights))))))))))))))))))))
           | _ \<Rightarrow> Inl IndexError)
      | _ \<Rightarrow> Inl IndexError)"

text \<open>
  The scaled scores \<^verbatim>\<open>torch.matmul(q, k.transpose(-2, -1)) / math.sqrt(self.d_qk)\<close> that
  \<^verbatim>\<open>forward\<close> computes from \<open>query\<close> and \<open>key\<close> before it applies the mask.
\<close>

definition GroupedQueryAttention_scores ::
  "GroupedQueryAttention \<Rightarrow> tensor \<Rightarrow> tensor \<Rightarrow> error + tensor" where
  "GroupedQueryAttention_scores self query key =
     (case shape query of
        batch_size # seq_len_q # _ \<Rightarrow>
          (case shape key of
             _ # seq_len_k # _ \<Rightarrow>
               and_then (Linear_forward (GroupedQueryAttention.query_proj self) query) (\<lambda>q.
               and_then (Linear_forward (GroupedQueryAttention.key_proj self) key) (\<lambda>k.
               and_then (view q [int batch_size, int seq_len_q,
                                 int (num_query_heads self), int (d_qk self)]) (\<lambda>q.
               and_then (transpose_dims q 1 2) (\<lambda>q.
               and_then (view k [int batch_size, int seq_len_k,
                                 int (num_kv_heads self), int (d_qk self)]) (\<lambda>k.
               and_then (transpose_dims k 1 2) (\<lambda>k.
               and_then (expand_kv self k) (\<lambda>k.
               and_then (transpose_dims k (- 2) (- 1)) (\<lambda>kt.
               and_then (matmul q kt) (\<lambda>qk.
                 Inr (div_scalar qk (sqrt (real (d_qk self)))))))))))))
           | _ \<Rightarrow> Inl IndexError)
      | _ \<Rightarrow> Inl IndexError)"


section \<open>Causal self-attention (README.md, second notebook)\<close>

text \<open>
  The linear layers \<^verbatim>\<open>self.query\<close>, \<^verbatim>\<open>self.key\<close> and \<^verbatim>\<open>self.value\<close> of the module are
  the fields \<open>W_query\<close>, \<open>W_key\<close> and \<open>W_value\<close>.
\<close>

record CausalSelfAttention =
  embedding_dim :: nat
  scale :: real
  W_query :: Linear
  W_key :: Linear
  W_value :: Linear
  dropout_p :: real
  training :: bool

definition CausalSelfAttention_init ::
  "nat \<Rightarrow> real \<Rightarrow> (nat \<Rightarrow> nat \<Rightarrow> real) \<Rightarrow> error + CausalSelfAttention" where
  "CausalSelfAttention_init e p init =
     (if p < 0 \<or> 1 < p then Inl ValueError
      else Inr \<lparr>embedding_dim = e, scale = sqrt (real e),
                W_query = nn_Linear e e (init 0),
                W_key = nn_Linear e e (init 1),
                W_value = nn_Linear e e (init 2),
                dropout_p = p, training = True\<rparr>)"

text \<open>The causal mask \<^verbatim>\<open>torch.tril(torch.ones(seq_len, seq_len))\<close> of \<^verbatim>\<open>forward\<close>.\<close>

definition causal_mask :: "nat \<Rightarrow> error + tensor" where
  "causal_mask seq_len = tril (ones [seq_len, seq_len])"

text \<open>
  \<^verbatim>\<open>forward(self, x)\<close>, with the draw of the dropout layer as the argument \<open>keep\<close>.
  Unpacking \<^verbatim>\<open>x.size()\<close> into three names raises unless \<open>x\<close> has rank 3.
\<close>

definition CausalSelfAttention_forward ::
  "CausalSelfAttention \<Rightarrow> tensor \<Rightarrow> (nat list \<Rightarrow> bool) \<Rightarrow> error + tensor \<times> tensor" where
  "CausalSelfAttention_forward self x keep =
     (case shape x of
        [batch_size, seq_len, _] \<Rightarrow>
          and_then (Linear_forward (W_query self) x) (\<lambda>q.
          and_then (Linear_forward (W_key self) x) (\<lambda>k.
          and_then (Linear_forward (W_value self) x) (\<lambda>v.
          and_then (transpose_dims k 1 2) (\<lambda>kt.
          and_then (bmm q kt) (\<lambda>qk.
          let scores = div_scalar qk (scale self)
          in and_then (causal_mask seq_len) (\<lambda>mask_t.
             and_then (masked_fill scores (eq_scalar mask_t 0) (- 1000000000)) (\<lambda>scores.
             and_then (softmax scores (- 1)) (\<lambda>attention.
             let attention =
                   dropout (CausalSelfAttention.dropout_p self)
                     (CausalSelfAttention.training self) keep attention
             in and_then (bmm attention v) (\<lambda>output. Inr (output, attention))))))))))
      | _ \<Rightarrow> Inl ValueError)"

text \<open>
  The scaled scores \<^verbatim>\<open>torch.bmm(q, k.transpose(1, 2)) / self.scale\<close> that \<^verbatim>\<open>forward\<close>
  computes before it applies the causal mask.
\<close>

definition CausalSelfAttention_scores :: "CausalSelfAttention \<Rightarrow> tensor \<Rightarrow> error + tensor" where
  "CausalSelfAttention_scores self x =
     (case shape x of
        [batch_size, seq_len, _] \<Rightarrow>
          and_then (Linear_forward (W_query self) x) (\<lambda>q.
          and_then (Linear_forward (W_key self) x) (\<lambda>k.
          and_then (transpose_dims k 1 2) (\<lambda>kt.
          and_then (bmm q kt) (\<lambda>qk. Inr (div_scalar qk (scale self))))))
      | _ \<Rightarrow> Inl ValueError)"


section \<open>Notions used in the statements\<close>

text \<open>
  A caller-supplied mask fits scores of shape \<open>s\<close> when it is a tensor that
  broadcasts to \<open>s\<close>: the masked scores then have the shape of the scores.
\<close>

definition mask_fits :: "tensor option \<Rightarrow> nat list \<Rightarrow> bool" where
  "mask_fits mask_t s =
     (case mask_t of
        None \<Rightarrow> True
      | Some m \<Rightarrow> well_shaped m \<and> broadcast_shapes s (shape m) = Some s)"

text \<open>Whether a mask that fits allows the position \<open>idx\<close> of the scores.\<close>

definition allowed :: "tensor option \<Rightarrow> nat list \<Rightarrow> bool" where
  "allowed mask_t idx =
     (case mask_t of
        None \<Rightarrow> True
      | Some m \<Rightarrow> get m (expand_index (shape m) idx) \<noteq> 0)"


section \<open>Row-major indexing\<close>

lemma and_then_Inr [simp]: "and_then (Inr x) f = f x"
  by (simp add: and_then_def)

lemma and_then_Inl [simp]: "and_then (Inl e) f = Inl e"
  by (simp add: and_then_def)

lemma in_range_Nil [simp]: "in_range [] idx \<longleftrightarrow> idx = []"
  by (auto simp: in_range_def)

lemma in_range_Cons:
  "in_range (d # ds) idx \<longleftrightarrow> (\<exists>i js. idx = i # js \<and> i < d \<and> in_range ds js)"
  by (auto simp: in_range_def list_all2_Cons2)

lemma in_range_Cons_Cons [simp]:
  "in_range (d # ds) (i # js) \<longleftrightarrow> i < d \<and> in_range ds js"
  by (simp add: in_range_def)

lemma in_range_length: "in_range s idx \<Longrightarrow> length idx = length s"
  by (simp add: in_range_def list_all2_lengthD)

lemma length_indices [simp]: "length (indices s) = prod_list s"
proof (induction s)
  case Nil
  show ?case by simp
next
  case (Cons d ds)
  have "length (indices (d # ds)) = sum_list (map (\<lambda>i. prod_list ds) [0..<d])"
    by (simp add: length_concat comp_def Cons.IH)
  also have "\<dots> = d * prod_list ds"
    by (simp add: sum_list_triv)
  finally show ?case by simp
qed

lemma set_indices: "set (indices s) = {idx. in_range s idx}"
proof (induction s)
  case Nil
  show ?case by auto
next
  case (Cons d ds)
  show ?case
    by (auto simp: Cons.IH in_range_Cons)
qed

lemma nth_concat_uniform:
  "\<forall>xs \<in> set xss. length xs = m \<Longrightarrow> i < length xss \<Longrightarrow> j < m
    \<Longrightarrow> concat xss ! (i * m + j) = xss ! i ! j"
proof (induction xss arbitrary: i)
  case Nil
  then show ?case by simp
next
  case (Cons xs xss)
  show ?case
  proof (cases i)
    case 0
    with Cons.prems show ?thesis by (simp add: nth_append)
  next
    case (Suc k)
    have "concat (xs # xss) ! (i * m + j) = concat xss ! (k * m + j)"
      using Cons.prems Suc by (simp add: nth_append)
    also have "\<dots> = xss ! k ! j"
      using Cons.prems Suc by (intro Cons.IH) auto
    finally show ?thesis using Suc by simp
  qed
qed

lemma ravel_less: "in_range s idx \<Longrightarrow> ravel s idx < prod_list s"
proof (induction s arbitrary: idx)
  case Nil
  then show ?case by simp
next
  case (Cons d ds)
  then obtain i js where idx: "idx = i # js" "i < d" "in_range ds js"
    by (auto simp: in_range_Cons)
  have "ravel ds js < prod_list ds" using Cons.IH idx by simp
  then have "i * prod_list ds + ravel ds js < Suc i * prod_list ds" by simp
  also have "\<dots> \<le> d * prod_list ds"
    using idx(2) by (intro mult_le_mono1) simp
  finally show ?case using idx by simp
qed

lemma nth_indices_ravel: "in_range s idx \<Longrightarrow> indices s ! ravel s idx = idx"
proof (induction s arbitrary: idx)
  case Nil
  then show ?case by simp
next
  case (Cons d ds)
  then obtain i js where idx: "idx = i # js" "i < d" "in_range ds js"
    by (auto simp: in_range_Cons)
  let ?xss = "map (\<lambda>i. map ((#) i) (indices ds)) [0..<d]"
  have r: "ravel ds js < prod_list ds" using idx by (simp add: ravel_less)
  have "concat ?xss ! (i * prod_list ds + ravel ds js) = ?xss ! i ! ravel ds js"
    using idx r by (intro nth_concat_uniform) auto
  also have "\<dots> = i # indices ds ! ravel ds js"
    using idx r by simp
  also have "\<dots> = i # js" using Cons.IH idx by simp
  finally show ?case using idx by simp
qed

lemma map_ravel_indices: "map (ravel s) (indices s) = [0..<prod_list s]"
proof (induction s)
  case Nil
  show ?case by simp
next
  case (Cons d ds)
  let ?P = "prod_list ds"
  have blocks: "concat (map (\<lambda>i. map (\<lambda>n. i * ?P + n) [0..<?P]) [0..<k]) = [0..<k * ?P]" for k
  proof (induction k)
    case 0
    show ?case by simp
  next
    case (Suc k)
    have "map (\<lambda>n. k * ?P + n) [0..<?P] = [k * ?P..<k * ?P + ?P]"
      using map_add_upt [of "k * ?P" ?P] by (simp add: add.commute)
    moreover have "[0..<k * ?P + ?P] = [0..<k * ?P] @ [k * ?P..<k * ?P + ?P]"
      by (rule upt_add_eq_append) simp
    ultimately show ?case
      using Suc by (simp add: add.commute)
  qed
  have "map (ravel (d # ds)) (indices (d # ds))
      = concat (map (\<lambda>i. map (\<lambda>js. i * ?P + ravel ds js) (indices ds)) [0..<d])"
    by (simp add: map_concat comp_def)
  also have "\<dots> = concat (map (\<lambda>i. map (\<lambda>n. i * ?P + n) (map (ravel ds) (indices ds))) [0..<d])"
    by (simp add: comp_def)
  also have "\<dots> = [0..<d * ?P]"
    by (simp only: Cons.IH blocks)
  finally show ?case by simp
qed

lemma shape_tabulate [simp]: "shape (tabulate s f) = s"
  by (simp add: tabulate_def)

lemma well_shaped_tabulate [simp]: "well_shaped (tabulate s f)"
  by (simp add: tabulate_def well_shaped_def)

lemma get_tabulate [simp]: "in_range s idx \<Longrightarrow> get (tabulate s f) idx = f idx"
  by (simp add: get_def tabulate_def ravel_less nth_indices_ravel)

lemma tabulate_cong:
  "(\<And>idx. in_range s idx \<Longrightarrow> f idx = g idx) \<Longrightarrow> tabulate s f = tabulate s g"
  by (simp add: tabulate_def set_indices)

lemma tabulate_get: "well_shaped t \<Longrightarrow> tabulate (shape t) (get t) = t"
proof -
  assume w: "well_shaped t"
  have "map (get t) (indices (shape t)) = map ((!) (data t)) (map (ravel (shape t)) (indices (shape t)))"
    by (simp add: get_def comp_def)
  also have "\<dots> = map ((!) (data t)) [0..<length (data t)]"
    using w by (simp only: map_ravel_indices well_shaped_def)
  also have "\<dots> = data t" by (rule map_nth)
  finally show ?thesis by (simp add: tabulate_def)
qed

section \<open>Facts about the primitives\<close>

lemma sort_0213: "sort [0, 2, 1, 3::nat] = [0..<4]"
  by (simp add: upt_rec)

lemma upt4: "[0..<4] = [0, 1, 2, 3::nat]"
  by (simp add: upt_rec)

lemma in_range4:
  "in_range [a, b, c, d] idx \<longleftrightarrow> (\<exists>i j k l. idx = [i, j, k, l] \<and> i < a \<and> j < b \<and> k < c \<and> l < d)"
  by (auto simp: in_range_Cons)

lemma in_range3:
  "in_range [a, b, c] idx \<longleftrightarrow> (\<exists>i j k. idx = [i, j, k] \<and> i < a \<and> j < b \<and> k < c)"
  by (auto simp: in_range_Cons)

lemma permute_0213:
  "shape t = [a, b, c, d] \<Longrightarrow>
   permute t [0, 2, Suc 0, 3] = Inr (tabulate [a, c, b, d] (\<lambda>idx. get t [idx ! 0, idx ! 2, idx ! 1, idx ! 3]))"
  by (simp add: permute_def sort_0213 upt4 eval_nat_numeral)

lemma view_infer4:
  "prod_list (shape t) = B * T * (H * K) \<Longrightarrow> 0 < B \<Longrightarrow> 0 < H * K \<Longrightarrow>
   view t [int B, - 1, int H, int K] = Inr \<lparr>shape = [B, T, H, K], data = data t\<rparr>"
  apply (simp add: view_def Let_def)
  apply (simp flip: of_nat_mult)
  done

lemma view_infer3:
  "prod_list (shape t) = B * T * D \<Longrightarrow> 0 < B \<Longrightarrow> 0 < D \<Longrightarrow>
   view t [int B, - 1, int D] = Inr \<lparr>shape = [B, T, D], data = data t\<rparr>"
  apply (simp add: view_def Let_def)
  apply (simp flip: of_nat_mult)
  done

lemma view_exact4:
  "prod_list (shape t) = B * T * H * K \<Longrightarrow> 
   view t [int B, int T, int H, int K] = Inr \<lparr>shape = [B, T, H, K], data = data t\<rparr>"
  by (simp add: view_def Let_def)

lemma view_exact3:
  "prod_list (shape t) = B * T * D \<Longrightarrow> 
   view t [int B, int T, int D] = Inr \<lparr>shape = [B, T, D], data = data t\<rparr>"
  by (simp add: view_def Let_def)

lemma wrap_dim_simps:
  "wrap_dim (Suc (Suc (Suc (Suc 0)))) (- 1) = Inr (Suc (Suc (Suc 0)))"
  "wrap_dim (Suc (Suc (Suc (Suc 0)))) (- 2) = Inr (Suc (Suc 0))"
  "wrap_dim (Suc (Suc (Suc (Suc 0)))) 1 = Inr (Suc 0)"
  "wrap_dim (Suc (Suc (Suc (Suc 0)))) 2 = Inr (Suc (Suc 0))"
  "wrap_dim (Suc (Suc (Suc 0))) (- 1) = Inr (Suc (Suc 0))"
  "wrap_dim (Suc (Suc (Suc 0))) 1 = Inr (Suc 0)"
  "wrap_dim (Suc (Suc (Suc 0))) 2 = Inr (Suc (Suc 0))"
  by (simp_all add: wrap_dim_def eval_nat_numeral)

lemma transpose_last4:
  "shape t = [a, b, c, d] \<Longrightarrow>
   transpose_dims t (- 2) (- 1) = Inr (tabulate [a, b, d, c] (\<lambda>idx. get t [idx ! 0, idx ! 1, idx ! 3, idx ! 2]))"
  apply (simp add: transpose_dims_def wrap_dim_simps eval_nat_numeral)
  apply (rule tabulate_cong)
  apply (auto simp: in_range4 eval_nat_numeral)
  done

lemma transpose_12_4:
  "shape t = [a, b, c, d] \<Longrightarrow>
   transpose_dims t 1 2 = Inr (tabulate [a, c, b, d] (\<lambda>idx. get t [idx ! 0, idx ! 2, idx ! 1, idx ! 3]))"
  apply (simp add: transpose_dims_def wrap_dim_simps eval_nat_numeral)
  apply (rule tabulate_cong)
  apply (auto simp: in_range4 eval_nat_numeral)
  done

lemma transpose_12_3:
  "shape t = [a, b, c] \<Longrightarrow>
   transpose_dims t 1 2 = Inr (tabulate [a, c, b] (\<lambda>idx. get t [idx ! 0, idx ! 2, idx ! 1]))"
  apply (simp add: transpose_dims_def wrap_dim_simps eval_nat_numeral)
  apply (rule tabulate_cong)
  apply (auto simp: in_range3 eval_nat_numeral)
  done


lemma expand_rev_id: "list_all2 (<) js ds \<Longrightarrow> expand_rev ds js = js"
  by (induction js ds rule: list_all2_induct) auto

lemma expand_index_id: "in_range s idx \<Longrightarrow> expand_index s idx = idx"
  by (simp add: expand_index_def in_range_def expand_rev_id)

lemma broadcast_rev_same: "broadcast_rev xs xs = Some xs"
  by (induction xs) (auto simp: broadcast_dim_def)

lemma broadcast_shapes_same [simp]: "broadcast_shapes s s = Some s"
  by (simp add: broadcast_shapes_def broadcast_rev_same)

lemma broadcast_rev_in_range:
  "broadcast_rev xs ys = Some zs \<Longrightarrow> list_all2 (<) js zs
    \<Longrightarrow> list_all2 (<) (expand_rev xs js) xs \<and> list_all2 (<) (expand_rev ys js) ys"
proof (induction xs ys arbitrary: zs js rule: broadcast_rev.induct)
  case (1 ys)
  then show ?case by (simp add: expand_rev_id)
next
  case (2 x xs)
  then show ?case by (simp add: expand_rev_id)
next
  case (3 x xs y ys)
  from "3.prems"(1) obtain d zs' where d: "broadcast_dim x y = Some d"
    and r: "broadcast_rev xs ys = Some zs'" and zs: "zs = d # zs'"
    by (auto split: option.splits)
  from "3.prems"(2) zs obtain i js' where js: "js = i # js'" "i < d" "list_all2 (<) js' zs'"
    by (auto simp: list_all2_Cons2)
  have tl: "list_all2 (<) (expand_rev xs js') xs \<and> list_all2 (<) (expand_rev ys js') ys"
    using "3.IH" [OF d r js(3)] .
  have "(if x = 1 then 0 else i) < x" "(if y = 1 then 0 else i) < y"
    using d js(2) by (auto simp: broadcast_dim_def split: if_splits)
  with tl js show ?case by simp
qed

lemma expand_index_in_range:
  assumes "broadcast_shapes s m = Some r" and "in_range r idx"
  shows "in_range s (expand_index s idx)" and "in_range m (expand_index m idx)"
proof -
  from assms(1) obtain zs where z: "broadcast_rev (rev s) (rev m) = Some zs" and r: "r = rev zs"
    by (auto simp: broadcast_shapes_def)
  have "list_all2 (<) (rev idx) zs"
    using assms(2) r by (simp add: in_range_def list_all2_rev1)
  from broadcast_rev_in_range [OF z this]
  show "in_range s (expand_index s idx)" and "in_range m (expand_index m idx)"
    by (simp_all add: in_range_def expand_index_def list_all2_rev1)
qed

lemma matmul4:
  "shape a = [B, H, n, k] \<Longrightarrow> shape b = [B, H, k, m] \<Longrightarrow>
   matmul a b = Inr (tabulate [B, H, n, m]
      (\<lambda>idx. \<Sum>l\<leftarrow>[0..<k]. get a [idx ! 0, idx ! 1, idx ! 2, l] * get b [idx ! 0, idx ! 1, l, idx ! 3]))"
  apply (simp add: matmul_def Let_def eval_nat_numeral)
  apply (rule tabulate_cong)
  apply (auto simp: in_range4 eval_nat_numeral expand_index_id)
  done

lemma bmm3:
  "shape a = [B, n, k] \<Longrightarrow> shape b = [B, k, m] \<Longrightarrow>
   bmm a b = Inr (tabulate [B, n, m]
      (\<lambda>idx. \<Sum>l\<leftarrow>[0..<k]. get a [idx ! 0, idx ! 1, l] * get b [idx ! 0, l, idx ! 2]))"
  by (simp add: bmm_def)

lemma Linear_forward3:
  "shape x = [B, T, n_in] \<Longrightarrow>
   Linear_forward (nn_Linear n_in n_out init) x = Inr (tabulate [B, T, n_out]
      (\<lambda>idx. (\<Sum>l\<leftarrow>[0..<n_in]. get x (butlast idx @ [l]) * get (weight (nn_Linear n_in n_out init)) [last idx, l])
                         + get (bias (nn_Linear n_in n_out init)) [last idx]))"
  by (simp add: Linear_forward_def nn_Linear_def)

lemma shape_dropout [simp]: "shape (dropout p tr keep t) = shape t"
  by (simp add: dropout_def)

lemma well_shaped_dropout [simp]: "well_shaped t \<Longrightarrow> well_shaped (dropout p tr keep t)"
  by (simp add: dropout_def)

lemma shape_div_scalar [simp]: "shape (div_scalar t c) = shape t"
  by (simp add: div_scalar_def)

lemma shape_eq_scalar [simp]: "shape (eq_scalar t c) = shape t"
  by (simp add: eq_scalar_def)

lemma well_shaped_div_scalar [simp]: "well_shaped (div_scalar t c) = well_shaped t"
  by (simp add: div_scalar_def well_shaped_def)

lemma well_shaped_eq_scalar [simp]: "well_shaped (eq_scalar t c) = well_shaped t"
  by (simp add: eq_scalar_def well_shaped_def)

lemma get_div_scalar:
  "well_shaped t \<Longrightarrow> in_range (shape t) idx \<Longrightarrow> get (div_scalar t c) idx = get t idx / c"
  by (simp add: get_def div_scalar_def well_shaped_def ravel_less)

lemma get_eq_scalar:
  "well_shaped t \<Longrightarrow> in_range (shape t) idx
    \<Longrightarrow> get (eq_scalar t c) idx = (if get t idx = c then 1 else 0)"
  by (simp add: get_def eq_scalar_def well_shaped_def ravel_less)

lemma softmax_last4:
  "shape t = [a, b, c, d] \<Longrightarrow>
   softmax t (- 1) = Inr (tabulate [a, b, c, d]
      (\<lambda>idx. exp (get t idx) / (\<Sum>j\<leftarrow>[0..<d]. exp (get t (idx[3 := j])))))"
  by (simp add: softmax_def wrap_dim_simps eval_nat_numeral)

lemma softmax_last3:
  "shape t = [a, b, c] \<Longrightarrow>
   softmax t (- 1) = Inr (tabulate [a, b, c]
      (\<lambda>idx. exp (get t idx) / (\<Sum>j\<leftarrow>[0..<c]. exp (get t (idx[2 := j])))))"
  by (simp add: softmax_def wrap_dim_simps eval_nat_numeral)

lemma masked_fill_expand:
  "broadcast_shapes (shape t) (shape m) = Some (shape t) \<Longrightarrow>
   masked_fill t m c = Inr (tabulate (shape t)
     (\<lambda>idx. if get m (expand_index (shape m) idx) \<noteq> 0 then c else get t idx))"
  apply (simp add: masked_fill_def)
  apply (rule tabulate_cong)
  apply (simp add: expand_index_id)
  done


section \<open>Splitting and merging heads\<close>

lemma MultiHeadAttention_init_Inr:
  assumes "MultiHeadAttention_init dm nh p init = Inr m"
  shows "nh \<noteq> 0" and "nh * (dm div nh) = dm" and "0 \<le> p" and "p \<le> 1"
    and "MultiHeadAttention.d_model m = dm \<and> MultiHeadAttention.num_heads m = nh
      \<and> MultiHeadAttention.d_k m = dm div nh
      \<and> MultiHeadAttention.query_proj m = nn_Linear dm dm (init 0)
      \<and> MultiHeadAttention.key_proj m = nn_Linear dm dm (init 1)
      \<and> MultiHeadAttention.value_proj m = nn_Linear dm dm (init 2)
      \<and> MultiHeadAttention.output_proj m = nn_Linear dm dm (init 3)
      \<and> MultiHeadAttention.dropout_p m = p \<and> MultiHeadAttention.training m"
  using assms by (auto simp: MultiHeadAttention_init_def split: if_splits)

lemma split_heads_eq:
  assumes "MultiHeadAttention_init dm nh p init = Inr m"
    and "shape x = [B, T, dm]" and "0 < B" and "0 < dm"
  shows "split_heads m x B = Inr (tabulate [B, nh, T, dm div nh]
     (\<lambda>idx. get \<lparr>shape = [B, T, nh, dm div nh], data = data x\<rparr> [idx ! 0, idx ! 2, idx ! 1, idx ! 3]))"
proof -
  note i = MultiHeadAttention_init_Inr [OF assms(1)]
  have v: "view x [int B, - 1, int nh, int (dm div nh)]
      = Inr \<lparr>shape = [B, T, nh, dm div nh], data = data x\<rparr>"
    using assms i(2) by (intro view_infer4) simp_all
  show ?thesis
    unfolding split_heads_def by (simp add: i(5) v permute_0213)
qed

lemma merge_heads_eq:
  assumes "MultiHeadAttention_init dm nh p init = Inr m"
    and "shape y = [B, nh, T, dm div nh]" and "0 < B" and "0 < dm"
  shows "merge_heads m y B = Inr \<lparr>shape = [B, T, dm], data =
     data (tabulate [B, T, nh, dm div nh] (\<lambda>idx. get y [idx ! 0, idx ! 2, idx ! 1, idx ! 3]))\<rparr>"
proof -
  note i = MultiHeadAttention_init_Inr [OF assms(1)]
  let ?c = "tabulate [B, T, nh, dm div nh] (\<lambda>idx. get y [idx ! 0, idx ! 2, idx ! 1, idx ! 3])"
  have "prod_list (shape ?c) = B * T * dm"
    using i(2) by (simp add: mult.assoc)
  then have v: "view ?c [int B, - 1, int dm] = Inr \<lparr>shape = [B, T, dm], data = data ?c\<rparr>"
    using assms by (intro view_infer3) simp_all
  show ?thesis
    using v unfolding merge_heads_def by (simp add: i(5) assms(2) permute_0213 contiguous_def)
qed

subsection \<open>Repeating blocks\<close>

lemma chunks_exact:
  "length xs = n * P \<Longrightarrow> 0 < P \<Longrightarrow> chunks P xs = map (\<lambda>i. take P (drop (i * P) xs)) [0..<n]"
  by (simp add: chunks_def)

lemma concat_map_concat: "concat (map concat xss) = concat (concat xss)"
  by (induction xss) simp_all

lemma nth_concat_replicate:
  assumes "m < length bs * G"
  shows "concat (map (replicate G) bs) ! m = bs ! (m div G)"
proof -
  have G: "0 < G" using assms by (cases G) auto
  have d: "m div G < length bs"
    using assms G by (simp add: less_mult_imp_div_less)
  have "concat (map (replicate G) bs) ! ((m div G) * G + m mod G)
      = map (replicate G) bs ! (m div G) ! (m mod G)"
    using d G by (intro nth_concat_uniform) auto
  then show ?thesis using d G by simp
qed

lemma nth_repeat_blocks:
  assumes len: "length xs = n * P" and m: "m < n * G" and r: "r < P"
  shows "concat (map (\<lambda>blk. concat (replicate G blk)) (chunks P xs)) ! (m * P + r)
       = xs ! ((m div G) * P + r)"
proof -
  have P: "0 < P" using r by simp
  have G: "0 < G" using m by (cases G) auto
  let ?bs = "chunks P xs"
  have bs: "?bs = map (\<lambda>i. take P (drop (i * P) xs)) [0..<n]"
    using len P by (rule chunks_exact)
  have lbs: "length ?bs = n" by (simp add: bs)
  have d: "m div G < n"
    using m G by (simp add: less_mult_imp_div_less)
  have dP: "m div G * P + P \<le> n * P"
  proof -
    have "Suc (m div G) * P \<le> n * P" using d by (intro mult_le_mono1) simp
    then show ?thesis by simp
  qed
  let ?bs' = "concat (map (replicate G) ?bs)"
  have blk: "length b = P" if "b \<in> set ?bs" for b
  proof -
    from that obtain i where i: "i < n" "b = take P (drop (i * P) xs)"
      by (auto simp: bs)
    have "Suc i * P \<le> n * P" using i(1) by (intro mult_le_mono1) simp
    then show ?thesis using i len by simp
  qed
  have all: "\<forall>b \<in> set ?bs'. length b = P"
    using blk by auto
  have lbs': "length ?bs' = n * G"
    by (simp add: length_concat comp_def lbs sum_list_triv)
  have "concat (map (\<lambda>blk. concat (replicate G blk)) ?bs) = concat ?bs'"
    using concat_map_concat [of "map (replicate G) ?bs"] by (simp add: comp_def)
  also have "\<dots> ! (m * P + r) = ?bs' ! m ! r"
    using all m r lbs' by (intro nth_concat_uniform) auto
  also have "?bs' ! m = ?bs ! (m div G)"
    using m lbs by (intro nth_concat_replicate) simp
  also have "\<dots> = take P (drop (m div G * P) xs)"
    using d by (simp add: bs)
  also have "\<dots> ! r = xs ! (m div G * P + r)"
  proof -
    have "m div G * P \<le> length xs" using d len by simp
    then show ?thesis using r by simp
  qed
  finally show ?thesis .
qed

lemma length_concat_replicate: "length (concat (replicate G b)) = G * length b"
  by (induction G) simp_all

lemma length_repeat_blocks:
  assumes "length xs = n * P"
  shows "length (concat (map (\<lambda>blk. concat (replicate G blk)) (chunks P xs))) = n * P * G"
proof (cases "P = 0")
  case True
  then show ?thesis by (simp add: chunks_def)
next
  case False
  then have bs: "chunks P xs = map (\<lambda>i. take P (drop (i * P) xs)) [0..<n]"
    using assms by (intro chunks_exact) simp_all
  have l: "length (take P (drop (i * P) xs)) = P" if "i < n" for i
  proof -
    have "Suc i * P \<le> n * P" using that by (intro mult_le_mono1) simp
    then show ?thesis using assms by simp
  qed
  have "length (concat (map (\<lambda>blk. concat (replicate G blk)) (chunks P xs)))
      = sum_list (map (\<lambda>i. G * length (take P (drop (i * P) xs))) [0..<n])"
    by (simp add: bs length_concat comp_def sum_list_replicate)
  also have "map (\<lambda>i. G * length (take P (drop (i * P) xs))) [0..<n] = map (\<lambda>i. G * P) [0..<n]"
    using l by (intro map_cong) auto
  also have "sum_list (map (\<lambda>i. G * P) [0..<n]) = n * P * G"
    by (simp add: sum_list_triv)
  finally show ?thesis .
qed

lemma repeat_interleave_heads:
  assumes s: "shape t = [B, H, T, K]" and w: "well_shaped t"
  shows "\<exists>r. repeat_interleave t G 1 = Inr r \<and> shape r = [B, H * G, T, K] \<and> well_shaped r
     \<and> (\<forall>b i j k. b < B \<and> i < H * G \<and> j < T \<and> k < K
           \<longrightarrow> get r [b, i, j, k] = get t [b, i div G, j, k])"
proof -
  let ?d = "concat (map (\<lambda>blk. concat (replicate G blk)) (chunks (T * K) (data t)))"
  let ?r = "\<lparr>shape = [B, H * G, T, K], data = ?d\<rparr>"
  have len: "length (data t) = (B * H) * (T * K)"
    using s w by (simp add: well_shaped_def mult.assoc)
  have r: "repeat_interleave t G 1 = Inr ?r"
    by (simp add: repeat_interleave_def s)
  have wr: "well_shaped ?r"
    using length_repeat_blocks [OF len, of G] by (simp add: well_shaped_def mult_ac)
  have "get ?r [b, i, j, k] = get t [b, i div G, j, k]"
    if "b < B" "i < H * G" "j < T" "k < K" for b i j k
  proof -
    have G: "0 < G" using that(2) by (cases G) auto
    have m: "b * (H * G) + i < (B * H) * G"
    proof -
      have "b * (H * G) + i < Suc b * (H * G)" using that(2) by simp
      also have "\<dots> \<le> B * (H * G)" using that(1) by (intro mult_le_mono1) simp
      finally show ?thesis by (simp add: mult.assoc)
    qed
    have rr: "j * K + k < T * K"
    proof -
      have "j * K + k < Suc j * K" using that(4) by simp
      also have "\<dots> \<le> T * K" using that(3) by (intro mult_le_mono1) simp
      finally show ?thesis .
    qed
    have dv: "(b * (H * G) + i) div G = b * H + i div G"
      using G by (simp add: mult.assoc [symmetric])
    have "get ?r [b, i, j, k] = ?d ! ((b * (H * G) + i) * (T * K) + (j * K + k))"
      by (simp add: get_def algebra_simps)
    also have "\<dots> = data t ! ((b * (H * G) + i) div G * (T * K) + (j * K + k))"
      using len m rr by (rule nth_repeat_blocks)
    also have "\<dots> = get t [b, i div G, j, k]"
      unfolding dv by (simp add: get_def s algebra_simps)
    finally show ?thesis .
  qed
  with r wr show ?thesis by auto
qed


lemma GroupedQueryAttention_init_Inr:
  assumes "GroupedQueryAttention_init dm nq nkv p init = Inr m"
  shows "nq \<noteq> 0" and "nkv \<noteq> 0" and "nq * (dm div nq) = dm" and "nkv * (nq div nkv) = nq"
    and "0 \<le> p" and "p \<le> 1"
    and "GroupedQueryAttention.d_model m = dm \<and> num_query_heads m = nq
      \<and> num_kv_heads m = nkv \<and> kv_groups m = nq div nkv \<and> d_qk m = dm div nq
      \<and> GroupedQueryAttention.query_proj m = nn_Linear dm dm (init 0)
      \<and> GroupedQueryAttention.key_proj m = nn_Linear dm (dm div nq * nkv) (init 1)
      \<and> GroupedQueryAttention.value_proj m = nn_Linear dm (dm div nq * nkv) (init 2)
      \<and> GroupedQueryAttention.output_proj m = nn_Linear dm dm (init 3)
      \<and> GroupedQueryAttention.dropout_p m = p \<and> GroupedQueryAttention.training m"
  using assms by (auto simp: GroupedQueryAttention_init_def split: if_splits)

subsection \<open>Masking\<close>

lemma mask_step:
  assumes w: "well_shaped sc" and m: "mask_fits mask_t (shape sc)"
  shows "(case mask_t of None \<Rightarrow> Inr sc
          | Some m \<Rightarrow> masked_fill sc (eq_scalar m 0) (- 1000000000))
       = Inr (tabulate (shape sc)
               (\<lambda>idx. if allowed mask_t idx then get sc idx else - 1000000000))"
proof (cases mask_t)
  case None
  then show ?thesis using tabulate_get [OF w] by (simp add: allowed_def)
next
  case (Some mk)
  then have wk: "well_shaped mk"
    and b: "broadcast_shapes (shape sc) (shape mk) = Some (shape sc)"
    using m by (simp_all add: mask_fits_def)
  have "masked_fill sc (eq_scalar mk 0) (- 1000000000)
      = Inr (tabulate (shape sc)
          (\<lambda>idx. if get (eq_scalar mk 0) (expand_index (shape mk) idx) \<noteq> 0
                  then - 1000000000 else get sc idx))"
    using b by (simp add: masked_fill_expand)
  also have "tabulate (shape sc)
          (\<lambda>idx. if get (eq_scalar mk 0) (expand_index (shape mk) idx) \<noteq> 0
                  then - 1000000000 else get sc idx)
      = tabulate (shape sc)
          (\<lambda>idx. if allowed mask_t idx then get sc idx else - 1000000000)"
  proof (rule tabulate_cong)
    fix idx assume r: "in_range (shape sc) idx"
    have "in_range (shape mk) (expand_index (shape mk) idx)"
      using b r by (rule expand_index_in_range(2))
    then show "(if get (eq_scalar mk 0) (expand_index (shape mk) idx) \<noteq> 0
                then - 1000000000 else get sc idx)
             = (if allowed mask_t idx then get sc idx else - 1000000000)"
      using wk by (simp add: get_eq_scalar allowed_def Some)
  qed
  finally show ?thesis using Some by simp
qed

lemma softmax_masked_cong4:
  "tabulate [a, b, c, d]
     (\<lambda>idx. exp (get (tabulate [a, b, c, d] f) idx)
        / (\<Sum>j\<leftarrow>[0..<d]. exp (get (tabulate [a, b, c, d] f) (idx[3 := j]))))
   = tabulate [a, b, c, d] (\<lambda>idx. exp (f idx) / (\<Sum>j\<leftarrow>[0..<d]. exp (f (idx[3 := j]))))"
proof (rule tabulate_cong)
  fix idx assume r: "in_range [a, b, c, d] idx"
  then have "in_range [a, b, c, d] (idx[3 := j])" if "j < d" for j
    using that by (auto simp: in_range4 eval_nat_numeral)
  then have "map (\<lambda>j. exp (get (tabulate [a, b, c, d] f) (idx[3 := j]))) [0..<d]
      = map (\<lambda>j. exp (f (idx[3 := j]))) [0..<d]"
    by (intro map_cong) simp_all
  then have den: "(\<Sum>j\<leftarrow>[0..<d]. exp (get (tabulate [a, b, c, d] f) (idx[3 := j])))
      = (\<Sum>j\<leftarrow>[0..<d]. exp (f (idx[3 := j])))"
    by (rule arg_cong)
  have num: "get (tabulate [a, b, c, d] f) idx = f idx"
    using r by simp
  show "exp (get (tabulate [a, b, c, d] f) idx)
        / (\<Sum>j\<leftarrow>[0..<d]. exp (get (tabulate [a, b, c, d] f) (idx[3 := j])))
      = exp (f idx) / (\<Sum>j\<leftarrow>[0..<d]. exp (f (idx[3 := j])))"
    unfolding den num ..
qed

lemma softmax_masked_cong3:
  "tabulate [a, b, c]
     (\<lambda>idx. exp (get (tabulate [a, b, c] f) idx)
        / (\<Sum>j\<leftarrow>[0..<c]. exp (get (tabulate [a, b, c] f) (idx[2 := j]))))
   = tabulate [a, b, c] (\<lambda>idx. exp (f idx) / (\<Sum>j\<leftarrow>[0..<c]. exp (f (idx[2 := j]))))"
proof (rule tabulate_cong)
  fix idx assume r: "in_range [a, b, c] idx"
  then have "in_range [a, b, c] (idx[2 := j])" if "j < c" for j
    using that by (auto simp: in_range3 eval_nat_numeral)
  then have "map (\<lambda>j. exp (get (tabulate [a, b, c] f) (idx[2 := j]))) [0..<c]
      = map (\<lambda>j. exp (f (idx[2 := j]))) [0..<c]"
    by (intro map_cong) simp_all
  then have den: "(\<Sum>j\<leftarrow>[0..<c]. exp (get (tabulate [a, b, c] f) (idx[2 := j])))
      = (\<Sum>j\<leftarrow>[0..<c]. exp (f (idx[2 := j])))"
    by (rule arg_cong)
  have num: "get (tabulate [a, b, c] f) idx = f idx"
    using r by simp
  show "exp (get (tabulate [a, b, c] f) idx)
        / (\<Sum>j\<leftarrow>[0..<c]. exp (get (tabulate [a, b, c] f) (idx[2 := j])))
      = exp (f idx) / (\<Sum>j\<leftarrow>[0..<c]. exp (f (idx[2 := j])))"
    unfolding den num ..
qed

subsection \<open>The attention weights of multi-head attention\<close>

lemma MHA_forward_weights:
  assumes init: "MultiHeadAttention_init dm nh p init = Inr m"
    and q: "shape query = [B, Tq, dm]" and k: "shape key = [B, Tk, dm]"
    and v: "shape value = [B, Tk, dm]"
    and pos: "0 < B" "0 < dm"
    and mask: "mask_fits mask_t [B, nh, Tq, Tk]"
  shows "\<exists>sc out. MultiHeadAttention_scores m query key = Inr sc
     \<and> shape sc = [B, nh, Tq, Tk] \<and> well_shaped sc \<and> shape out = [B, Tq, dm]
     \<and> MultiHeadAttention_forward m query key value mask_t keep
        = Inr (out, dropout p True keep (tabulate [B, nh, Tq, Tk]
            (\<lambda>idx. exp (if allowed mask_t idx then get sc idx else - 1000000000)
               / (\<Sum>j\<leftarrow>[0..<Tk]. exp (if allowed mask_t (idx[3 := j])
                                         then get sc (idx[3 := j]) else - 1000000000)))))"
proof -
  note i = MultiHeadAttention_init_Inr [OF init]
  let ?dk = "dm div nh"
  have f: "MultiHeadAttention.d_k m = dm div nh" "MultiHeadAttention.dropout_p m = p"
    "MultiHeadAttention.training m"
    using i(5) by simp_all
  obtain ql where ql: "Linear_forward (MultiHeadAttention.query_proj m) query = Inr ql"
    "shape ql = [B, Tq, dm]"
    using Linear_forward3 [OF q, of dm "init 0"] by (simp add: i(5))
  obtain kl where kl: "Linear_forward (MultiHeadAttention.key_proj m) key = Inr kl"
    "shape kl = [B, Tk, dm]"
    using Linear_forward3 [OF k, of dm "init 1"] by (simp add: i(5))
  obtain vl where vl: "Linear_forward (MultiHeadAttention.value_proj m) value = Inr vl"
    "shape vl = [B, Tk, dm]"
    using Linear_forward3 [OF v, of dm "init 2"] by (simp add: i(5))
  obtain Q where Q: "split_heads m ql B = Inr Q" "shape Q = [B, nh, Tq, ?dk]"
    using split_heads_eq [OF init ql(2) pos] by simp
  obtain K where K: "split_heads m kl B = Inr K" "shape K = [B, nh, Tk, ?dk]"
    using split_heads_eq [OF init kl(2) pos] by simp
  obtain V where V: "split_heads m vl B = Inr V" "shape V = [B, nh, Tk, ?dk]"
    using split_heads_eq [OF init vl(2) pos] by simp
  obtain Kt where Kt: "transpose_dims K (- 2) (- 1) = Inr Kt" "shape Kt = [B, nh, ?dk, Tk]"
    using transpose_last4 [OF K(2)] by simp
  obtain QK where QK: "matmul Q Kt = Inr QK" "shape QK = [B, nh, Tq, Tk]" "well_shaped QK"
    using matmul4 [OF Q(2) Kt(2)] by simp
  define sc where "sc = div_scalar QK (sqrt (real ?dk))"
  have sc: "shape sc = [B, nh, Tq, Tk]" "well_shaped sc"
    using QK by (simp_all add: sc_def)
  have scores: "MultiHeadAttention_scores m query key = Inr sc"
    unfolding MultiHeadAttention_scores_def
    by (simp add: q ql Q kl K Kt QK sc_def f)
  let ?ms = "tabulate [B, nh, Tq, Tk]
      (\<lambda>idx. if allowed mask_t idx then get sc idx else - 1000000000)"
  have ms: "(case mask_t of None \<Rightarrow> Inr sc
          | Some m \<Rightarrow> masked_fill sc (eq_scalar m 0) (- 1000000000)) = Inr ?ms"
    using mask_step [of sc mask_t] sc mask by simp
  let ?w = "tabulate [B, nh, Tq, Tk]
      (\<lambda>idx. exp (get ?ms idx) / (\<Sum>j\<leftarrow>[0..<Tk]. exp (get ?ms (idx[3 := j]))))"
  have sm: "softmax ?ms (- 1) = Inr ?w"
    by (rule softmax_last4) simp
  let ?w' = "tabulate [B, nh, Tq, Tk]
            (\<lambda>idx. exp (if allowed mask_t idx then get sc idx else - 1000000000)
               / (\<Sum>j\<leftarrow>[0..<Tk]. exp (if allowed mask_t (idx[3 := j])
                                         then get sc (idx[3 := j]) else - 1000000000)))"
  have ww: "?w = ?w'"
    by (rule softmax_masked_cong4)
  let ?aw = "dropout p True keep ?w'"
  obtain ctx where ctx: "matmul ?aw V = Inr ctx" "shape ctx = [B, nh, Tq, ?dk]"
    using matmul4 [of ?aw B nh Tq Tk V ?dk] V(2) by simp
  obtain mg where mg: "merge_heads m ctx B = Inr mg" "shape mg = [B, Tq, dm]"
    using merge_heads_eq [OF init ctx(2) pos] by simp
  obtain out where out: "Linear_forward (MultiHeadAttention.output_proj m) mg = Inr out"
    "shape out = [B, Tq, dm]"
    using Linear_forward3 [OF mg(2), of dm "init 3"] by (simp add: i(5))
  have "MultiHeadAttention_forward m query key value mask_t keep = Inr (out, ?aw)"
    unfolding MultiHeadAttention_forward_def
    using ms sm
    by (simp add: q ql Q kl K vl V Kt QK sc_def [symmetric] ww f ctx mg out)
  with scores sc out(2) show ?thesis by blast
qed


subsection \<open>Rows of a softmax\<close>




lemma softmax_row_const:
  fixes f :: "nat \<Rightarrow> real"
  assumes "\<And>l. l < n \<Longrightarrow> f l = c" and "j < n"
  shows "exp (f j) / (\<Sum>l\<leftarrow>[0..<n]. exp (f l)) = 1 / real n"
proof -
  have "map (\<lambda>l. exp (f l)) [0..<n] = map (\<lambda>l. exp c) [0..<n]"
    using assms(1) by (intro map_cong) auto
  then have "(\<Sum>l\<leftarrow>[0..<n]. exp (f l)) = (\<Sum>l\<leftarrow>[0..<n]. exp c)"
    by (rule arg_cong)
  also have "\<dots> = real n * exp c"
    by (simp add: sum_list_triv)
  finally show ?thesis using assms by simp
qed


subsection \<open>The attention weights of grouped-query attention\<close>

lemma shape_repeat_interleave4:
  "shape t = [a, b, c, d] \<Longrightarrow>
   \<exists>r. repeat_interleave t g 1 = Inr r \<and> shape r = [a, b * g, c, d]"
  by (simp add: repeat_interleave_def)

lemma GQA_forward_weights:
  assumes init: "GroupedQueryAttention_init dm nq nkv p init = Inr m"
    and q: "shape query = [B, Tq, dm]" and k: "shape key = [B, Tk, dm]"
    and v: "shape value = [B, Tk, dm]"
    and mask: "mask_fits mask_t [B, nq, Tq, Tk]"
  shows "\<exists>sc out. GroupedQueryAttention_scores m query key = Inr sc
     \<and> shape sc = [B, nq, Tq, Tk] \<and> well_shaped sc \<and> shape out = [B, Tq, dm]
     \<and> GroupedQueryAttention_forward m query key value mask_t keep
        = Inr (out, dropout p True keep (tabulate [B, nq, Tq, Tk]
            (\<lambda>idx. exp (if allowed mask_t idx then get sc idx else - 1000000000)
               / (\<Sum>j\<leftarrow>[0..<Tk]. exp (if allowed mask_t (idx[3 := j])
                                         then get sc (idx[3 := j]) else - 1000000000)))))"
proof -
  note i = GroupedQueryAttention_init_Inr [OF init]
  let ?dk = "dm div nq"
  have f: "GroupedQueryAttention.d_model m = dm" "num_query_heads m = nq"
    "num_kv_heads m = nkv" "kv_groups m = nq div nkv" "d_qk m = dm div nq"
    "GroupedQueryAttention.dropout_p m = p" "GroupedQueryAttention.training m"
    using i(7) by simp_all
  have dm: "B * Tq * nq * ?dk = B * Tq * dm" "B * Tk * nkv * ?dk = B * Tk * (?dk * nkv)"
    using i(3) by (simp_all add: mult.assoc mult.commute)
  obtain ql where ql: "Linear_forward (GroupedQueryAttention.query_proj m) query = Inr ql"
    "shape ql = [B, Tq, dm]"
    using Linear_forward3 [OF q, of dm "init 0"] by (simp add: i(7))
  obtain kl where kl: "Linear_forward (GroupedQueryAttention.key_proj m) key = Inr kl"
    "shape kl = [B, Tk, ?dk * nkv]"
    using Linear_forward3 [OF k, of "?dk * nkv" "init 1"] by (simp add: i(7))
  obtain vl where vl: "Linear_forward (GroupedQueryAttention.value_proj m) value = Inr vl"
    "shape vl = [B, Tk, ?dk * nkv]"
    using Linear_forward3 [OF v, of "?dk * nkv" "init 2"] by (simp add: i(7))
  obtain q4 where q4: "view ql [int B, int Tq, int nq, int ?dk] = Inr q4"
    "shape q4 = [B, Tq, nq, ?dk]"
    using view_exact4 [of ql B Tq nq ?dk] ql(2) dm by simp
  obtain k4 where k4: "view kl [int B, int Tk, int nkv, int ?dk] = Inr k4"
    "shape k4 = [B, Tk, nkv, ?dk]"
    using view_exact4 [of kl B Tk nkv ?dk] kl(2) dm by simp
  obtain v4 where v4: "view vl [int B, int Tk, int nkv, int ?dk] = Inr v4"
    "shape v4 = [B, Tk, nkv, ?dk]"
    using view_exact4 [of vl B Tk nkv ?dk] vl(2) dm by simp
  obtain Q where Q: "transpose_dims q4 1 2 = Inr Q" "shape Q = [B, nq, Tq, ?dk]"
    using transpose_12_4 [OF q4(2)] by simp
  obtain K0 where K0: "transpose_dims k4 1 2 = Inr K0" "shape K0 = [B, nkv, Tk, ?dk]"
    using transpose_12_4 [OF k4(2)] by simp
  obtain V0 where V0: "transpose_dims v4 1 2 = Inr V0" "shape V0 = [B, nkv, Tk, ?dk]"
    using transpose_12_4 [OF v4(2)] by simp
  obtain K where K: "expand_kv m K0 = Inr K" "shape K = [B, nq, Tk, ?dk]"
    using shape_repeat_interleave4 [OF K0(2), of "nq div nkv"] i(4)
    by (auto simp: expand_kv_def f)
  obtain V where V: "expand_kv m V0 = Inr V" "shape V = [B, nq, Tk, ?dk]"
    using shape_repeat_interleave4 [OF V0(2), of "nq div nkv"] i(4)
    by (auto simp: expand_kv_def f)
  obtain Kt where Kt: "transpose_dims K (- 2) (- 1) = Inr Kt" "shape Kt = [B, nq, ?dk, Tk]"
    using transpose_last4 [OF K(2)] by simp
  obtain QK where QK: "matmul Q Kt = Inr QK" "shape QK = [B, nq, Tq, Tk]" "well_shaped QK"
    using matmul4 [OF Q(2) Kt(2)] by simp
  define sc where "sc = div_scalar QK (sqrt (real ?dk))"
  have sc: "shape sc = [B, nq, Tq, Tk]" "well_shaped sc"
    using QK by (simp_all add: sc_def)
  have scores: "GroupedQueryAttention_scores m query key = Inr sc"
    unfolding GroupedQueryAttention_scores_def
    by (simp add: q k ql kl q4 k4 Q K0 K Kt QK sc_def f)
  let ?ms = "tabulate [B, nq, Tq, Tk]
      (\<lambda>idx. if allowed mask_t idx then get sc idx else - 1000000000)"
  have ms: "(case mask_t of None \<Rightarrow> Inr sc
          | Some m \<Rightarrow> masked_fill sc (eq_scalar m 0) (- 1000000000)) = Inr ?ms"
    using mask_step [of sc mask_t] sc mask by simp
  let ?w = "tabulate [B, nq, Tq, Tk]
      (\<lambda>idx. exp (get ?ms idx) / (\<Sum>j\<leftarrow>[0..<Tk]. exp (get ?ms (idx[3 := j]))))"
  have sm: "softmax ?ms (- 1) = Inr ?w"
    by (rule softmax_last4) simp
  let ?w' = "tabulate [B, nq, Tq, Tk]
            (\<lambda>idx. exp (if allowed mask_t idx then get sc idx else - 1000000000)
               / (\<Sum>j\<leftarrow>[0..<Tk]. exp (if allowed mask_t (idx[3 := j])
                                         then get sc (idx[3 := j]) else - 1000000000)))"
  have ww: "?w = ?w'"
    by (rule softmax_masked_cong4)
  let ?aw = "dropout p True keep ?w'"
  obtain ctx where ctx: "matmul ?aw V = Inr ctx" "shape ctx = [B, nq, Tq, ?dk]"
    using matmul4 [of ?aw B nq Tq Tk V ?dk] V(2) by simp
  obtain ct where ct: "transpose_dims ctx 1 2 = Inr ct" "shape ct = [B, Tq, nq, ?dk]"
    using transpose_12_4 [OF ctx(2)] by simp
  obtain mg where mg: "view (contiguous ct) [int B, int Tq, int dm] = Inr mg"
    "shape mg = [B, Tq, dm]"
    using view_exact3 [of ct B Tq dm] ct(2) dm by (simp add: contiguous_def)
  obtain out where out: "Linear_forward (GroupedQueryAttention.output_proj m) mg = Inr out"
    "shape out = [B, Tq, dm]"
    using Linear_forward3 [OF mg(2), of dm "init 3"] by (simp add: i(7))
  have "GroupedQueryAttention_forward m query key value mask_t keep = Inr (out, ?aw)"
    unfolding GroupedQueryAttention_forward_def
    using ms sm
    by (simp add: q k ql kl vl q4 k4 v4 Q K0 V0 K V Kt QK sc_def [symmetric] ww f ctx ct mg out)
  with scores sc out(2) show ?thesis by blast
qed


subsection \<open>The attention weights of causal self-attention\<close>

lemma CausalSelfAttention_init_Inr:
  assumes "CausalSelfAttention_init e p init = Inr m"
  shows "0 \<le> p" and "p \<le> 1"
    and "embedding_dim m = e \<and> scale m = sqrt (real e)
      \<and> W_query m = nn_Linear e e (init 0) \<and> W_key m = nn_Linear e e (init 1)
      \<and> W_value m = nn_Linear e e (init 2)
      \<and> CausalSelfAttention.dropout_p m = p \<and> CausalSelfAttention.training m"
  using assms by (auto simp: CausalSelfAttention_init_def split: if_splits)

lemma broadcast_rev_append: "broadcast_rev (xs @ ys) xs = Some (xs @ ys)"
proof (induction xs)
  case Nil
  show ?case by (cases ys) simp_all
next
  case (Cons x xs)
  then show ?case by (simp add: broadcast_dim_def)
qed

lemma broadcast_shapes_Cons [simp]: "broadcast_shapes (b # s) s = Some (b # s)"
  using broadcast_rev_append [of "rev s" "[b]"] by (simp add: broadcast_shapes_def)

lemma causal_mask_eq:
  "causal_mask T = Inr (tabulate [T, T] (\<lambda>idx. if idx ! Suc 0 \<le> idx ! 0 then 1 else 0))"
proof -
  have "tabulate [T, T]
          (\<lambda>idx. if idx ! Suc 0 \<le> idx ! 0 then get (tabulate [T, T] (\<lambda>idx. 1)) idx else 0)
      = tabulate [T, T] (\<lambda>idx. if idx ! Suc 0 \<le> idx ! 0 then 1 else 0)"
    by (rule tabulate_cong) simp
  then show ?thesis
    by (simp add: causal_mask_def tril_def ones_def)
qed

lemma allowed_causal:
  assumes "i < T" and "j < T"
  shows "allowed (Some (tabulate [T, T] (\<lambda>idx. if idx ! Suc 0 \<le> idx ! 0 then 1 else 0))) [b, i, j]
     \<longleftrightarrow> j \<le> i"
proof -
  have "expand_index [T, T] [b, i, j] = [i, j]"
    using assms by (auto simp: expand_index_def)
  then show ?thesis using assms by (simp add: allowed_def)
qed

lemma Causal_forward_weights:
  assumes init: "CausalSelfAttention_init e p init = Inr m"
    and x: "shape x = [B, T, e]"
  shows "\<exists>sc out. CausalSelfAttention_scores m x = Inr sc
     \<and> shape sc = [B, T, T] \<and> well_shaped sc \<and> shape out = [B, T, e]
     \<and> CausalSelfAttention_forward m x keep
        = Inr (out, dropout p True keep (tabulate [B, T, T]
            (\<lambda>idx. exp (if idx ! 2 \<le> idx ! 1 then get sc idx else - 1000000000)
               / (\<Sum>j\<leftarrow>[0..<T]. exp (if j \<le> idx ! 1
                                        then get sc (idx[2 := j]) else - 1000000000)))))"
proof -
  note i = CausalSelfAttention_init_Inr [OF init]
  have f: "scale m = sqrt (real e)" "CausalSelfAttention.dropout_p m = p"
    "CausalSelfAttention.training m"
    using i(3) by simp_all
  obtain ql where ql: "Linear_forward (W_query m) x = Inr ql" "shape ql = [B, T, e]"
    using Linear_forward3 [OF x, of e "init 0"] by (simp add: i(3))
  obtain kl where kl: "Linear_forward (W_key m) x = Inr kl" "shape kl = [B, T, e]"
    using Linear_forward3 [OF x, of e "init 1"] by (simp add: i(3))
  obtain vl where vl: "Linear_forward (W_value m) x = Inr vl" "shape vl = [B, T, e]"
    using Linear_forward3 [OF x, of e "init 2"] by (simp add: i(3))
  obtain kt where kt: "transpose_dims kl 1 2 = Inr kt" "shape kt = [B, e, T]"
    using transpose_12_3 [OF kl(2)] by simp
  obtain qk where qk: "bmm ql kt = Inr qk" "shape qk = [B, T, T]" "well_shaped qk"
    using bmm3 [OF ql(2) kt(2)] by simp
  define sc where "sc = div_scalar qk (sqrt (real e))"
  have sc: "shape sc = [B, T, T]" "well_shaped sc"
    using qk by (simp_all add: sc_def)
  have scores: "CausalSelfAttention_scores m x = Inr sc"
    unfolding CausalSelfAttention_scores_def
    by (simp add: x ql kl kt qk sc_def f)
  let ?cm = "tabulate [T, T] (\<lambda>idx. if idx ! Suc 0 \<le> idx ! 0 then 1 else 0)"
  let ?ms = "tabulate [B, T, T]
      (\<lambda>idx. if allowed (Some ?cm) idx then get sc idx else - 1000000000)"
  have "mask_fits (Some ?cm) (shape sc)"
    by (simp add: mask_fits_def sc)
  from mask_step [OF sc(2) this]
  have ms: "masked_fill sc (eq_scalar ?cm 0) (- 1000000000) = Inr ?ms"
    by (simp add: sc)
  let ?w = "tabulate [B, T, T]
      (\<lambda>idx. exp (get ?ms idx) / (\<Sum>j\<leftarrow>[0..<T]. exp (get ?ms (idx[2 := j]))))"
  have sm: "softmax ?ms (- 1) = Inr ?w"
    by (rule softmax_last3) simp
  let ?w' = "tabulate [B, T, T]
            (\<lambda>idx. exp (if idx ! 2 \<le> idx ! 1 then get sc idx else - 1000000000)
               / (\<Sum>j\<leftarrow>[0..<T]. exp (if j \<le> idx ! 1
                                        then get sc (idx[2 := j]) else - 1000000000)))"
  have "?w = tabulate [B, T, T]
            (\<lambda>idx. exp (if allowed (Some ?cm) idx then get sc idx else - 1000000000)
               / (\<Sum>j\<leftarrow>[0..<T]. exp (if allowed (Some ?cm) (idx[2 := j])
                                        then get sc (idx[2 := j]) else - 1000000000)))"
    by (rule softmax_masked_cong3)
  also have "\<dots> = ?w'"
  proof (rule tabulate_cong)
    fix idx assume "in_range [B, T, T] idx"
    then obtain b i j where idx: "idx = [b, i, j]" "b < B" "i < T" "j < T"
      by (auto simp: in_range3)
    have "map (\<lambda>l. exp (if allowed (Some ?cm) (idx[2 := l])
                       then get sc (idx[2 := l]) else - 1000000000)) [0..<T]
        = map (\<lambda>l. exp (if l \<le> idx ! 1 then get sc (idx[2 := l]) else - 1000000000)) [0..<T]"
      using idx by (intro map_cong) (simp_all add: allowed_causal eval_nat_numeral)
    then have den: "(\<Sum>l\<leftarrow>[0..<T]. exp (if allowed (Some ?cm) (idx[2 := l])
                       then get sc (idx[2 := l]) else - 1000000000))
        = (\<Sum>l\<leftarrow>[0..<T]. exp (if l \<le> idx ! 1 then get sc (idx[2 := l]) else - 1000000000))"
      by (rule arg_cong)
    have num: "allowed (Some ?cm) idx \<longleftrightarrow> idx ! 2 \<le> idx ! 1"
      using idx by (simp add: allowed_causal)
    show "exp (if allowed (Some ?cm) idx then get sc idx else - 1000000000)
               / (\<Sum>j\<leftarrow>[0..<T]. exp (if allowed (Some ?cm) (idx[2 := j])
                                        then get sc (idx[2 := j]) else - 1000000000))
        = exp (if idx ! 2 \<le> idx ! 1 then get sc idx else - 1000000000)
               / (\<Sum>j\<leftarrow>[0..<T]. exp (if j \<le> idx ! 1
                                        then get sc (idx[2 := j]) else - 1000000000))"
      unfolding den num ..
  qed
  finally have ww: "?w = ?w'" .
  let ?aw = "dropout p True keep ?w'"
  obtain out where out: "bmm ?aw vl = Inr out" "shape out = [B, T, e]"
    using bmm3 [of ?aw B T T vl e] vl(2) by simp
  have "CausalSelfAttention_forward m x keep = Inr (out, ?aw)"
    unfolding CausalSelfAttention_forward_def
    using ms sm out
    by (simp add: x ql kl vl kt qk sc_def [symmetric] ww f causal_mask_eq Let_def)
  with scores sc out(2) show ?thesis by blast
qed

lemma dropout_zero [simp]: "dropout 0 tr keep t = t"
  by (simp add: dropout_def)

subsection \<open>Rows of the attention weights\<close>

lemma get_softmax4:
  assumes "b < B" "h < H" "i < Tq" "j < Tk"
  shows "get (tabulate [B, H, Tq, Tk]
            (\<lambda>idx. exp (f idx) / (\<Sum>l\<leftarrow>[0..<Tk]. exp (f (idx[3 := l]))))) [b, h, i, j]
       = exp (f [b, h, i, j]) / (\<Sum>l\<leftarrow>[0..<Tk]. exp (f [b, h, i, l]))"
  using assms by (simp add: eval_nat_numeral)

lemma get_softmax3:
  assumes "b < B" "i < Tq" "j < Tk"
  shows "get (tabulate [B, Tq, Tk]
            (\<lambda>idx. exp (f idx) / (\<Sum>l\<leftarrow>[0..<Tk]. exp (f (idx[2 := l]))))) [b, i, j]
       = exp (f [b, i, j]) / (\<Sum>l\<leftarrow>[0..<Tk]. exp (f [b, i, l]))"
  using assms by (simp add: eval_nat_numeral)

lemma MHA_masked_row_uniform:
  assumes init: "MultiHeadAttention_init D H 0 init = Inr m"
    and sh: "shape query = [B, Tq, D]" "shape key = [B, Tk, D]" "shape value = [B, Tk, D]"
    and pos: "0 < B" "0 < D"
    and mask: "mask_fits (Some mk) [B, H, Tq, Tk]"
    and row: "b < B" "h < H" "i < Tq"
    and zero: "\<forall>j<Tk. get mk (expand_index (shape mk) [b, h, i, j]) = 0"
  shows "\<exists>out w. MultiHeadAttention_forward m query key value (Some mk) keep = Inr (out, w)
           \<and> (\<forall>j<Tk. get w [b, h, i, j] = 1 / real Tk)"
proof -
  from MHA_forward_weights [OF init sh pos mask, of keep]
  obtain sc out where fw: "MultiHeadAttention_forward m query key value (Some mk) keep
        = Inr (out, tabulate [B, H, Tq, Tk]
            (\<lambda>idx. exp (if allowed (Some mk) idx then get sc idx else - 1000000000)
               / (\<Sum>j\<leftarrow>[0..<Tk]. exp (if allowed (Some mk) (idx[3 := j])
                                         then get sc (idx[3 := j]) else - 1000000000))))"
    by auto
  let ?f = "\<lambda>idx. if allowed (Some mk) idx then get sc idx else - 1000000000"
  let ?w = "tabulate [B, H, Tq, Tk]
      (\<lambda>idx. exp (?f idx) / (\<Sum>l\<leftarrow>[0..<Tk]. exp (?f (idx[3 := l]))))"
  have "get ?w [b, h, i, j] = 1 / real Tk" if j: "j < Tk" for j
  proof -
    have c: "?f [b, h, i, l] = - 1000000000" if "l < Tk" for l
      using zero that by (simp add: allowed_def)
    have "get ?w [b, h, i, j] = exp (?f [b, h, i, j]) / (\<Sum>l\<leftarrow>[0..<Tk]. exp (?f [b, h, i, l]))"
      using row j by (rule get_softmax4)
    also have "\<dots> = 1 / real Tk"
      using c j by (rule softmax_row_const)
    finally show ?thesis .
  qed
  with fw show ?thesis by auto
qed


lemma GQA_masked_row_uniform:
  assumes init: "GroupedQueryAttention_init D Hq Hkv 0 init = Inr m"
    and sh: "shape query = [B, Tq, D]" "shape key = [B, Tk, D]" "shape value = [B, Tk, D]"
    and mask: "mask_fits (Some mk) [B, Hq, Tq, Tk]"
    and row: "b < B" "h < Hq" "i < Tq"
    and zero: "\<forall>j<Tk. get mk (expand_index (shape mk) [b, h, i, j]) = 0"
  shows "\<exists>out w. GroupedQueryAttention_forward m query key value (Some mk) keep = Inr (out, w)
           \<and> (\<forall>j<Tk. get w [b, h, i, j] = 1 / real Tk)"
proof -
  from GQA_forward_weights [OF init sh mask, of keep]
  obtain sc out where fw: "GroupedQueryAttention_forward m query key value (Some mk) keep
        = Inr (out, tabulate [B, Hq, Tq, Tk]
            (\<lambda>idx. exp (if allowed (Some mk) idx then get sc idx else - 1000000000)
               / (\<Sum>j\<leftarrow>[0..<Tk]. exp (if allowed (Some mk) (idx[3 := j])
                                         then get sc (idx[3 := j]) else - 1000000000))))"
    by auto
  let ?f = "\<lambda>idx. if allowed (Some mk) idx then get sc idx else - 1000000000"
  let ?w = "tabulate [B, Hq, Tq, Tk]
      (\<lambda>idx. exp (?f idx) / (\<Sum>l\<leftarrow>[0..<Tk]. exp (?f (idx[3 := l]))))"
  have "get ?w [b, h, i, j] = 1 / real Tk" if j: "j < Tk" for j
  proof -
    have c: "?f [b, h, i, l] = - 1000000000" if "l < Tk" for l
      using zero that by (simp add: allowed_def)
    have "get ?w [b, h, i, j] = exp (?f [b, h, i, j]) / (\<Sum>l\<leftarrow>[0..<Tk]. exp (?f [b, h, i, l]))"
      using row j by (rule get_softmax4)
    also have "\<dots> = 1 / real Tk"
      using c j by (rule softmax_row_const)
    finally show ?thesis .
  qed
  with fw show ?thesis by auto
qed








lemma get_causal_weights:
  assumes "b < B" "i < T" "j < T"
  shows "get (tabulate [B, T, T]
            (\<lambda>idx. exp (if idx ! 2 \<le> idx ! 1 then s idx else c)
               / (\<Sum>l\<leftarrow>[0..<T]. exp (if l \<le> idx ! 1 then s (idx[2 := l]) else c)))) [b, i, j]
       = exp (if j \<le> i then s [b, i, j] else c)
           / (\<Sum>l\<leftarrow>[0..<T]. exp (if l \<le> i then s [b, i, l] else c))"
  using assms by (simp add: eval_nat_numeral cong: if_cong)




lemma Causal_scores_example:
  assumes m: "CausalSelfAttention_init 1 0
      (\<lambda>k n. if n = 0 then (if k = 0 then 1 / 2 else if k = 1 then - 1 / 2 else 0) else 0) = Inr m"
  shows "\<exists>sc. CausalSelfAttention_scores m \<lparr>shape = [1, 2, 1], data = [200000, 200000]\<rparr> = Inr sc
     \<and> get sc [0, 0, 0] = - 10000000000"
proof -
  note ii = CausalSelfAttention_init_Inr [OF m]
  let ?x = "\<lparr>shape = [1, 2, 1], data = [200000, 200000]\<rparr>"
  have sx: "shape ?x = [1, 2, 1]" by simp
  show ?thesis
    unfolding CausalSelfAttention_scores_def
    apply (simp add: ii(3) Linear_forward3 transpose_12_3 bmm3)
    apply (subst get_div_scalar)
      apply simp
     apply simp
    apply (simp add: nn_Linear_def eval_nat_numeral)
    apply (simp add: get_def)
    done
qed

lemma matmul_shape_3112:
  "shape a = [3, 1, 1, 2] \<Longrightarrow> shape b = [1, 1, 2, 1]
    \<Longrightarrow> \<exists>c. matmul a b = Inr c \<and> shape c = [3, 1, 1, 1]"
  by (simp add: matmul_def Let_def broadcast_shapes_def broadcast_dim_def)

section \<open>Bounds on the scores\<close>
















section \<open>Rows within tolerance\<close>








section \<open>The result of forward without dropout\<close>









section \<open>Construction\<close>

text \<open>
  C4, as amended. Constructing \<^verbatim>\<open>MultiHeadAttention\<close> raises a configuration error if and
  only if \<open>d_model\<close> is not evenly divisible by \<open>num_heads\<close>, whatever the dropout
  probability: the remainder is undefined (\<open>num_heads = 0\<close>, where \<^verbatim>\<open>%\<close> itself raises
  \<^verbatim>\<open>ZeroDivisionError\<close>) or not zero (where the assertion fails with its message). In
  particular \<open>d_model = 64\<close>, \<open>num_heads = 7\<close> raises the assertion. With divisible
  parameters the construction succeeds, with \<open>d_k = d_model div num_heads\<close>, exactly when
  the dropout probability lies in \<open>[0, 1]\<close>; otherwise \<^verbatim>\<open>nn.Dropout\<close> raises
  \<^verbatim>\<open>ValueError\<close>.
\<close>

theorem MultiHeadAttention_init_raises_iff:
  "((MultiHeadAttention_init dm nh p init = Inl ZeroDivisionError
       \<or> (\<exists>msg. MultiHeadAttention_init dm nh p init = Inl (AssertionError msg)))
      \<longleftrightarrow> nh = 0 \<or> dm mod nh \<noteq> 0)
    \<and> (nh \<noteq> 0 \<and> dm mod nh \<noteq> 0 \<longrightarrow>
         MultiHeadAttention_init dm nh p init
           = Inl (AssertionError ''d_model must be divisible by num_heads''))
    \<and> (nh = 0 \<longrightarrow> MultiHeadAttention_init dm nh p init = Inl ZeroDivisionError)
    \<and> MultiHeadAttention_init 64 7 p init
         = Inl (AssertionError ''d_model must be divisible by num_heads'')
    \<and> (nh \<noteq> 0 \<and> dm mod nh = 0 \<longrightarrow>
         (if 0 \<le> p \<and> p \<le> 1
          then \<exists>m. MultiHeadAttention_init dm nh p init = Inr m
            \<and> MultiHeadAttention.d_model m = dm \<and> MultiHeadAttention.num_heads m = nh
            \<and> MultiHeadAttention.d_k m = dm div nh
          else MultiHeadAttention_init dm nh p init = Inl ValueError))"
  by (simp add: MultiHeadAttention_init_def)

theorem MultiHeadAttention_init_raises_iff_witness:
  "(\<exists>m. MultiHeadAttention_init 64 8 (1 / 10) (\<lambda>k n. 0) = Inr m
          \<and> MultiHeadAttention.d_k m = 8)
    \<and> MultiHeadAttention_init 64 8 (3 / 2) (\<lambda>k n. 0) = Inl ValueError
    \<and> MultiHeadAttention_init 64 7 (1 / 10) (\<lambda>k n. 0)
         = Inl (AssertionError ''d_model must be divisible by num_heads'')
    \<and> MultiHeadAttention_init 64 0 (1 / 10) (\<lambda>k n. 0) = Inl ZeroDivisionError"
  using MultiHeadAttention_init_raises_iff [of 64 8 "1 / 10" "\<lambda>k n. 0"]
    MultiHeadAttention_init_raises_iff [of 64 8 "3 / 2" "\<lambda>k n. 0"]
    MultiHeadAttention_init_raises_iff [of 64 7 "1 / 10" "\<lambda>k n. 0"]
    MultiHeadAttention_init_raises_iff [of 64 0 "1 / 10" "\<lambda>k n. 0"]
  by auto

text \<open>
  Divisible parameters alone do not make the construction succeed: \<open>d_model = 64\<close> and
  \<open>num_heads = 8\<close> with the dropout probability \<open>1.5\<close> raise \<^verbatim>\<open>ValueError\<close>.
\<close>

theorem divisible_construction_raises_counterexample:
  "(64::nat) mod 8 = 0
    \<and> MultiHeadAttention_init 64 8 (3 / 2) (\<lambda>k n. 0) = Inl ValueError
    \<and> (\<exists>e. MultiHeadAttention_init 64 8 (3 / 2) (\<lambda>k n. 0) = Inl e)"
  by (simp add: MultiHeadAttention_init_def)

text \<open>
  C5. Constructing \<^verbatim>\<open>GroupedQueryAttention\<close> raises a configuration error (a failed
  assertion, or the \<^verbatim>\<open>ZeroDivisionError\<close> of \<^verbatim>\<open>%\<close> on a zero divisor) if and only if at
  least one of the three divisibility preconditions fails (\<open>d_model\<close> by
  \<open>num_query_heads\<close>, \<open>d_model\<close> by \<open>num_kv_heads\<close>, \<open>num_query_heads\<close> by \<open>num_kv_heads\<close>),
  for every dropout probability. In particular \<open>num_query_heads = 8\<close>, \<open>num_kv_heads = 3\<close>
  raises an assertion for every \<open>d_model\<close>. When the three preconditions hold, the
  constructor returns a module if the dropout probability lies in \<open>[0, 1]\<close>, and otherwise
  \<^verbatim>\<open>nn.Dropout\<close> raises \<^verbatim>\<open>ValueError\<close>, which is not an error of the configuration of heads.
\<close>

theorem GroupedQueryAttention_init_raises_iff:
  "((GroupedQueryAttention_init dm nq nkv p init = Inl ZeroDivisionError
       \<or> (\<exists>msg. GroupedQueryAttention_init dm nq nkv p init = Inl (AssertionError msg)))
      \<longleftrightarrow> nq = 0 \<or> nkv = 0 \<or> dm mod nq \<noteq> 0 \<or> dm mod nkv \<noteq> 0 \<or> nq mod nkv \<noteq> 0)
    \<and> (nq = 0 \<or> dm mod nq = 0 \<and> nkv = 0
          \<longrightarrow> GroupedQueryAttention_init dm nq nkv p init = Inl ZeroDivisionError)
    \<and> (\<exists>msg. GroupedQueryAttention_init dm 8 3 p init = Inl (AssertionError msg))
    \<and> GroupedQueryAttention_init 24 8 3 p init
         = Inl (AssertionError ''num_query_heads must be a multiple of num_kv_heads'')
    \<and> (nq \<noteq> 0 \<and> nkv \<noteq> 0 \<and> dm mod nq = 0 \<and> dm mod nkv = 0 \<and> nq mod nkv = 0 \<longrightarrow>
         (if 0 \<le> p \<and> p \<le> 1
          then \<exists>m. GroupedQueryAttention_init dm nq nkv p init = Inr m
            \<and> num_query_heads m = nq \<and> num_kv_heads m = nkv \<and> kv_groups m = nq div nkv
          else GroupedQueryAttention_init dm nq nkv p init = Inl ValueError))"
  by (auto simp add: GroupedQueryAttention_init_def)

theorem GroupedQueryAttention_init_raises_iff_witness:
  "(\<exists>m. GroupedQueryAttention_init 512 8 2 (1 / 10) (\<lambda>k n. 0) = Inr m \<and> kv_groups m = 4)
    \<and> GroupedQueryAttention_init 512 8 2 (3 / 2) (\<lambda>k n. 0) = Inl ValueError
    \<and> (\<exists>msg. GroupedQueryAttention_init 512 8 3 (1 / 10) (\<lambda>k n. 0) = Inl (AssertionError msg))
    \<and> GroupedQueryAttention_init 512 8 0 (1 / 10) (\<lambda>k n. 0) = Inl ZeroDivisionError"
  using GroupedQueryAttention_init_raises_iff [of 512 8 2 "1 / 10" "\<lambda>k n. 0"]
    GroupedQueryAttention_init_raises_iff [of 512 8 2 "3 / 2" "\<lambda>k n. 0"]
    GroupedQueryAttention_init_raises_iff [of 512 8 3 "1 / 10" "\<lambda>k n. 0"]
    GroupedQueryAttention_init_raises_iff [of 512 8 0 "1 / 10" "\<lambda>k n. 0"]
  by auto

section \<open>Heads\<close>

text \<open>
  C10. For a constructed module and a tensor \<open>x\<close> of shape \<open>(B, T, D)\<close> with
  \<open>D = num_heads * d_k\<close> (and \<open>B\<close>, \<open>D\<close> positive, so that \<^verbatim>\<open>view\<close> can infer the sequence
  length), \<^verbatim>\<open>split_heads\<close> returns a tensor of shape \<open>(B, num_heads, T, d_k)\<close>, and the
  recombination of \<^verbatim>\<open>forward\<close> (permute the head axis back, merge the last two axes)
  applied to it returns \<open>x\<close> again.
\<close>

theorem merge_heads_split_heads:
  assumes "MultiHeadAttention_init dm nh p init = Inr m"
    and "shape x = [B, T, dm]" and "well_shaped x" and "0 < B" and "0 < dm"
  shows "\<exists>y. split_heads m x B = Inr y \<and> shape y = [B, nh, T, dm div nh]
            \<and> merge_heads m y B = Inr x"
proof -
  note i = MultiHeadAttention_init_Inr [OF assms(1)]
  let ?x4 = "\<lparr>shape = [B, T, nh, dm div nh], data = data x\<rparr>"
  let ?y = "tabulate [B, nh, T, dm div nh] (\<lambda>idx. get ?x4 [idx ! 0, idx ! 2, idx ! 1, idx ! 3])"
  have s: "split_heads m x B = Inr ?y"
    using assms by (intro split_heads_eq) simp_all
  have w4: "well_shaped ?x4"
    using assms(2,3) i(2) by (simp add: well_shaped_def mult.assoc)
  have "tabulate [B, T, nh, dm div nh] (\<lambda>idx. get ?y [idx ! 0, idx ! 2, idx ! 1, idx ! 3])
      = tabulate [B, T, nh, dm div nh] (get ?x4)"
    by (rule tabulate_cong) (auto simp: in_range4)
  also have "\<dots> = ?x4"
    using tabulate_get [OF w4] by simp
  finally have "merge_heads m ?y B = Inr \<lparr>shape = [B, T, dm], data = data x\<rparr>"
    using merge_heads_eq [OF assms(1), of ?y B T] assms(4,5) by simp
  also have "\<lparr>shape = [B, T, dm], data = data x\<rparr> = x"
    using assms(2) by simp
  finally show ?thesis using s by simp
qed

theorem merge_heads_split_heads_witness:
  "\<exists>m. MultiHeadAttention_init 4 2 (1 / 10) (\<lambda>k n. 0) = Inr m
     \<and> shape \<lparr>shape = [1, 2, 4], data = [1, 2, 3, 4, 5, 6, 7, 8]\<rparr> = [1, 2, 4]
     \<and> well_shaped \<lparr>shape = [1, 2, 4], data = [1, 2, 3, 4, 5, 6, 7, 8]\<rparr>
     \<and> (\<exists>y. split_heads m \<lparr>shape = [1, 2, 4], data = [1, 2, 3, 4, 5, 6, 7, 8]\<rparr> 1 = Inr y
            \<and> shape y = [1, 2, 2, 2]
            \<and> merge_heads m y 1 = Inr \<lparr>shape = [1, 2, 4], data = [1, 2, 3, 4, 5, 6, 7, 8]\<rparr>)"
proof -
  let ?x = "\<lparr>shape = [1, 2, 4], data = [1, 2, 3, 4, 5, 6, 7, 8]\<rparr>"
  obtain m where m: "MultiHeadAttention_init 4 2 (1 / 10) (\<lambda>k n. 0) = Inr m"
    by (simp add: MultiHeadAttention_init_def)
  have w: "well_shaped ?x" by (simp add: well_shaped_def)
  from merge_heads_split_heads [OF m, of ?x 1 2] w m show ?thesis by simp
qed

section \<open>Grouped key and value heads\<close>

text \<open>
  C2. In \<^verbatim>\<open>GroupedQueryAttention.forward\<close>, Key and Value have shape
  \<open>(B, num_kv_heads, T, d_qk)\<close> when they are expanded along the head axis by the group
  size \<open>G = num_query_heads div num_kv_heads\<close>. The expanded tensor has
  \<open>num_query_heads\<close> heads, and its head \<open>i\<close> is element-wise the original kv-head
  \<open>i div G\<close>: each kv head is duplicated \<open>G\<close> times in a row. With two kv heads
  \<open>(1, 102)\<close> and \<open>(5, 106)\<close> and \<open>G = 2\<close> the four expanded heads are \<open>(1, 102)\<close>,
  \<open>(1, 102)\<close>, \<open>(5, 106)\<close>, \<open>(5, 106)\<close>, not the interleaved list.
\<close>

theorem expand_kv_head:
  assumes "GroupedQueryAttention_init dm nq nkv p init = Inr m"
    and "shape k = [B, nkv, T, dm div nq]" and "well_shaped k"
  shows "\<exists>k'. expand_kv m k = Inr k' \<and> shape k' = [B, nq, T, dm div nq]
     \<and> (\<forall>b i j c. b < B \<and> i < nq \<and> j < T \<and> c < dm div nq
           \<longrightarrow> get k' [b, i, j, c] = get k [b, i div (nq div nkv), j, c])"
proof -
  note i = GroupedQueryAttention_init_Inr [OF assms(1)]
  from repeat_interleave_heads [OF assms(2,3), of "nq div nkv"] i(4)
  show ?thesis by (simp add: expand_kv_def i(7)) blast
qed

theorem expand_kv_head_witness:
  "\<exists>m. GroupedQueryAttention_init 4 4 2 (1 / 10) (\<lambda>k n. 0) = Inr m
     \<and> well_shaped \<lparr>shape = [1, 2, 2, 1], data = [1, 102, 5, 106]\<rparr>
     \<and> (\<exists>k'. expand_kv m \<lparr>shape = [1, 2, 2, 1], data = [1, 102, 5, 106]\<rparr> = Inr k'
           \<and> shape k' = [1, 4, 2, 1]
           \<and> get k' [0, 0, 0, 0] = 1 \<and> get k' [0, 0, 1, 0] = 102
           \<and> get k' [0, 1, 0, 0] = 1 \<and> get k' [0, 1, 1, 0] = 102
           \<and> get k' [0, 2, 0, 0] = 5 \<and> get k' [0, 2, 1, 0] = 106
           \<and> get k' [0, 3, 0, 0] = 5 \<and> get k' [0, 3, 1, 0] = 106)"
proof -
  let ?k = "\<lparr>shape = [1, 2, 2, 1], data = [1, 102, 5, 106]\<rparr>"
  obtain m where m: "GroupedQueryAttention_init 4 4 2 (1 / 10) (\<lambda>k n. 0) = Inr m"
    by (simp add: GroupedQueryAttention_init_def)
  have w: "well_shaped ?k" by (simp add: well_shaped_def)
  have s: "shape ?k = [1, 2, 2, 4 div 4]" by simp
  from expand_kv_head [OF m s w] obtain k' where k': "expand_kv m ?k = Inr k'"
    "shape k' = [1, 4, 2, 4 div 4]"
    "\<forall>b i j c. b < 1 \<and> i < 4 \<and> j < 2 \<and> c < 4 div 4
        \<longrightarrow> get k' [b, i, j, c] = get ?k [b, i div (4 div 2), j, c]"
    by blast
  have g: "get k' [0, i, j, 0] = get ?k [0, i div 2, j, 0]" if "i < 4" "j < 2" for i j
    using k'(3) [rule_format, of 0 i j 0] that by simp
  have "get k' [0, 0, 0, 0] = 1" "get k' [0, 0, 1, 0] = 102"
    "get k' [0, 1, 0, 0] = 1" "get k' [0, 1, 1, 0] = 102"
    "get k' [0, 2, 0, 0] = 5" "get k' [0, 2, 1, 0] = 106"
    "get k' [0, 3, 0, 0] = 5" "get k' [0, 3, 1, 0] = 106"
    using g [of 0 0] g [of 0 1] g [of 1 0] g [of 1 1] g [of 2 0] g [of 2 1] g [of 3 0] g [of 3 1]
    by (simp_all add: get_def)
  with m w k'(1,2) show ?thesis by simp
qed

section \<open>Shapes\<close>

text \<open>
  C3, as amended. For a module constructed with \<open>d_model = D\<close> and \<open>num_heads = H\<close> (so
  \<open>D mod H = 0\<close>), a query of shape \<open>(B, T_q, D)\<close>, key and value of shape \<open>(B, T_k, D)\<close>,
  and no mask or a mask that broadcasts to the shape \<open>(B, H, T_q, T_k)\<close> of the scores
  without enlarging it, \<^verbatim>\<open>forward\<close> returns an output of shape \<open>(B, T_q, D)\<close> and
  attention weights of shape \<open>(B, H, T_q, T_k)\<close>. (\<open>B\<close> and \<open>D\<close> are positive: otherwise
  \<^verbatim>\<open>view\<close> cannot infer the sequence length and \<^verbatim>\<open>forward\<close> raises.)
\<close>

theorem MultiHeadAttention_forward_shapes:
  assumes "MultiHeadAttention_init D H p init = Inr m"
    and "shape query = [B, Tq, D]" and "shape key = [B, Tk, D]" and "shape value = [B, Tk, D]"
    and "0 < B" and "0 < D"
    and "mask_fits mask_t [B, H, Tq, Tk]"
  shows "\<exists>out w. MultiHeadAttention_forward m query key value mask_t keep = Inr (out, w)
           \<and> shape out = [B, Tq, D] \<and> shape w = [B, H, Tq, Tk]"
  using MHA_forward_weights [OF assms, of keep] by auto

theorem MultiHeadAttention_forward_shapes_witness:
  "\<exists>m. MultiHeadAttention_init 64 8 (1 / 10) (\<lambda>k n. 0) = Inr m
     \<and> mask_fits (Some \<lparr>shape = [1, 1, 10, 10], data = replicate 100 1\<rparr>) [2, 8, 10, 10]
     \<and> (\<exists>out w. MultiHeadAttention_forward m
            \<lparr>shape = [2, 10, 64], data = replicate 1280 0\<rparr>
            \<lparr>shape = [2, 10, 64], data = replicate 1280 0\<rparr>
            \<lparr>shape = [2, 10, 64], data = replicate 1280 0\<rparr>
            (Some \<lparr>shape = [1, 1, 10, 10], data = replicate 100 1\<rparr>) (\<lambda>idx. True) = Inr (out, w)
          \<and> shape out = [2, 10, 64] \<and> shape w = [2, 8, 10, 10])"
proof -
  let ?x = "\<lparr>shape = [2, 10, 64], data = replicate 1280 0\<rparr>"
  let ?mk = "\<lparr>shape = [1, 1, 10, 10], data = replicate 100 1\<rparr>"
  obtain m where m: "MultiHeadAttention_init 64 8 (1 / 10) (\<lambda>k n. 0) = Inr m"
    by (simp add: MultiHeadAttention_init_def)
  have f: "mask_fits (Some ?mk) [2, 8, 10, 10]"
    by (simp add: mask_fits_def well_shaped_def broadcast_shapes_def broadcast_dim_def)
  have s: "shape ?x = [2, 10, 64]" by simp
  from MultiHeadAttention_forward_shapes [OF m s s s _ _ f, of "\<lambda>idx. True"] m f
  show ?thesis by simp
qed

text \<open>
  Without the condition on the mask the shapes can differ. \<^verbatim>\<open>masked_fill\<close> broadcasts
  the scores against the mask, so a mask of shape \<open>(3, 1, 1, 2)\<close> turns the scores of a
  batch of one query into three copies: the weights have shape \<open>(3, 1, 1, 2)\<close> and the
  output, which \<^verbatim>\<open>view(batch_size, -1, d_model)\<close> folds into the sequence axis, has shape
  \<open>(1, 3, 1)\<close> for a query of shape \<open>(1, 1, 1)\<close>.
\<close>

theorem forward_shapes_mask_counterexample:
  "\<exists>m out w. MultiHeadAttention_init 1 1 0 (\<lambda>k n. 0) = Inr m
     \<and> MultiHeadAttention_forward m
          \<lparr>shape = [1, 1, 1], data = [1]\<rparr> \<lparr>shape = [1, 2, 1], data = [1, 2]\<rparr>
          \<lparr>shape = [1, 2, 1], data = [3, 4]\<rparr>
          (Some \<lparr>shape = [3, 1, 1, 2], data = [1, 1, 1, 1, 1, 1]\<rparr>) (\<lambda>idx. True) = Inr (out, w)
     \<and> shape out = [1, 3, 1] \<and> shape out \<noteq> [1, 1, 1]
     \<and> shape w = [3, 1, 1, 2] \<and> shape w \<noteq> [1, 1, 1, 2]"
proof -
  let ?q = "\<lparr>shape = [1, 1, 1], data = [1]\<rparr>"
  let ?k = "\<lparr>shape = [1, 2, 1], data = [1, 2]\<rparr>"
  let ?v = "\<lparr>shape = [1, 2, 1], data = [3, 4]\<rparr>"
  let ?mk = "\<lparr>shape = [3, 1, 1, 2], data = [1, 1, 1, 1, 1, 1]\<rparr>"
  obtain m where m: "MultiHeadAttention_init 1 1 0 (\<lambda>k n. 0) = Inr m"
    by (simp add: MultiHeadAttention_init_def)
  note i = MultiHeadAttention_init_Inr [OF m]
  have f: "MultiHeadAttention.d_k m = 1" "MultiHeadAttention.dropout_p m = 0"
    "MultiHeadAttention.d_model m = 1"
    using i(5) by simp_all
  have sq: "shape ?q = [1, 1, 1]" and sk: "shape ?k = [1, 2, 1]" and sv: "shape ?v = [1, 2, 1]"
    by simp_all
  obtain ql where ql: "Linear_forward (MultiHeadAttention.query_proj m) ?q = Inr ql"
    "shape ql = [1, 1, 1]"
    using Linear_forward3 [OF sq, of 1 "\<lambda>n. 0"] by (simp add: i(5))
  obtain kl where kl: "Linear_forward (MultiHeadAttention.key_proj m) ?k = Inr kl"
    "shape kl = [1, 2, 1]"
    using Linear_forward3 [OF sk, of 1 "\<lambda>n. 0"] by (simp add: i(5))
  obtain vl where vl: "Linear_forward (MultiHeadAttention.value_proj m) ?v = Inr vl"
    "shape vl = [1, 2, 1]"
    using Linear_forward3 [OF sv, of 1 "\<lambda>n. 0"] by (simp add: i(5))
  obtain Q where Q: "split_heads m ql 1 = Inr Q" "shape Q = [1, 1, 1, 1]"
    using split_heads_eq [OF m ql(2)] by simp
  obtain K where K: "split_heads m kl 1 = Inr K" "shape K = [1, 1, 2, 1]"
    using split_heads_eq [OF m kl(2)] by simp
  obtain V where V: "split_heads m vl 1 = Inr V" "shape V = [1, 1, 2, 1]"
    using split_heads_eq [OF m vl(2)] by simp
  obtain Kt where Kt: "transpose_dims K (- 2) (- 1) = Inr Kt" "shape Kt = [1, 1, 1, 2]"
    using transpose_last4 [OF K(2)] by simp
  obtain QK where QK: "matmul Q Kt = Inr QK" "shape QK = [1, 1, 1, 2]"
    using matmul4 [OF Q(2) Kt(2)] by simp
  define sc where "sc = div_scalar QK (sqrt (real (1::nat)))"
  have sc: "shape sc = [1, 1, 1, 2]" using QK by (simp add: sc_def)
  obtain ms where ms: "masked_fill sc (eq_scalar ?mk 0) (- 1000000000) = Inr ms"
    "shape ms = [3, 1, 1, 2]"
    by (simp add: masked_fill_def sc broadcast_shapes_def broadcast_dim_def)
  obtain w where w: "softmax ms (- 1) = Inr w" "shape w = [3, 1, 1, 2]"
    using softmax_last4 [OF ms(2)] by simp
  obtain ctx where ctx: "matmul w V = Inr ctx" "shape ctx = [3, 1, 1, 1]"
    using matmul_shape_3112 [OF w(2) V(2)] by blast
  obtain mg where mg: "merge_heads m ctx 1 = Inr mg" "shape mg = [1, 3, 1]"
    unfolding merge_heads_def
    by (simp add: permute_0213 [OF ctx(2)] contiguous_def view_def Let_def f)
  obtain out where out: "Linear_forward (MultiHeadAttention.output_proj m) mg = Inr out"
    "shape out = [1, 3, 1]"
    using Linear_forward3 [OF mg(2), of 1 "\<lambda>n. 0"] by (simp add: i(5))
  have "MultiHeadAttention_forward m ?q ?k ?v (Some ?mk) (\<lambda>idx. True) = Inr (out, w)"
    unfolding MultiHeadAttention_forward_def
    by (simp only: sq list.case ql and_then_Inr Q kl K vl V Kt QK f Let_def sc_def [symmetric]
        option.case ms w dropout_zero ctx mg out)
  with m out(2) w(2) show ?thesis by (intro exI [of _ m] exI [of _ out] exI [of _ w]) simp
qed

section \<open>Rows that the mask forbids entirely\<close>

text \<open>
  C9. For \<^verbatim>\<open>MultiHeadAttention\<close> and \<^verbatim>\<open>GroupedQueryAttention\<close> constructed with dropout
  probability 0, and a caller-supplied mask (broadcastable to the scores) that is zero at
  every key position of the query row \<open>(b, h, i)\<close>, \<^verbatim>\<open>forward\<close> returns attention weights
  whose row \<open>(b, h, i)\<close> is uniform: every entry, masked as it is, equals \<open>1 / T_k\<close>.
\<close>

theorem fully_masked_row_is_uniform:
  "(MultiHeadAttention_init D H 0 init = Inr m
      \<and> shape query = [B, Tq, D] \<and> shape key = [B, Tk, D] \<and> shape value = [B, Tk, D]
      \<and> 0 < B \<and> 0 < D \<and> mask_fits (Some mk) [B, H, Tq, Tk]
      \<and> b < B \<and> h < H \<and> i < Tq
      \<and> (\<forall>j<Tk. get mk (expand_index (shape mk) [b, h, i, j]) = 0)
    \<longrightarrow> (\<exists>out w. MultiHeadAttention_forward m query key value (Some mk) keep = Inr (out, w)
           \<and> (\<forall>j<Tk. get w [b, h, i, j] = 1 / real Tk)))
   \<and> (GroupedQueryAttention_init D Hq Hkv 0 init = Inr g
      \<and> shape query = [B, Tq, D] \<and> shape key = [B, Tk, D] \<and> shape value = [B, Tk, D]
      \<and> mask_fits (Some mk) [B, Hq, Tq, Tk]
      \<and> b < B \<and> h < Hq \<and> i < Tq
      \<and> (\<forall>j<Tk. get mk (expand_index (shape mk) [b, h, i, j]) = 0)
    \<longrightarrow> (\<exists>out w. GroupedQueryAttention_forward g query key value (Some mk) keep = Inr (out, w)
           \<and> (\<forall>j<Tk. get w [b, h, i, j] = 1 / real Tk)))"
  using MHA_masked_row_uniform [of D H init m query B Tq key Tk "value" mk b h i keep]
    GQA_masked_row_uniform [of D Hq Hkv init g query B Tq key Tk "value" mk b h i keep]
  by blast

theorem fully_masked_row_is_uniform_witness:
  "\<exists>m g. MultiHeadAttention_init 1 1 0 (\<lambda>k n. 0) = Inr m
     \<and> GroupedQueryAttention_init 1 1 1 0 (\<lambda>k n. 0) = Inr g
     \<and> mask_fits (Some \<lparr>shape = [1, 2], data = [0, 0]\<rparr>) [1, 1, 1, 2]
     \<and> get \<lparr>shape = [1, 2], data = [0, 0]\<rparr> (expand_index [1, 2] [0, 0, 0, 1]) = 0
     \<and> (\<exists>out w. MultiHeadAttention_forward m
            \<lparr>shape = [1, 1, 1], data = [1]\<rparr> \<lparr>shape = [1, 2, 1], data = [1, 2]\<rparr>
            \<lparr>shape = [1, 2, 1], data = [3, 4]\<rparr>
            (Some \<lparr>shape = [1, 2], data = [0, 0]\<rparr>) (\<lambda>idx. True) = Inr (out, w)
          \<and> get w [0, 0, 0, 0] = 1 / 2 \<and> get w [0, 0, 0, 1] = 1 / 2)
     \<and> (\<exists>out w. GroupedQueryAttention_forward g
            \<lparr>shape = [1, 1, 1], data = [1]\<rparr> \<lparr>shape = [1, 2, 1], data = [1, 2]\<rparr>
            \<lparr>shape = [1, 2, 1], data = [3, 4]\<rparr>
            (Some \<lparr>shape = [1, 2], data = [0, 0]\<rparr>) (\<lambda>idx. True) = Inr (out, w)
          \<and> get w [0, 0, 0, 0] = 1 / 2 \<and> get w [0, 0, 0, 1] = 1 / 2)"
proof -
  let ?q = "\<lparr>shape = [1, 1, 1], data = [1]\<rparr>"
  let ?k = "\<lparr>shape = [1, 2, 1], data = [1, 2]\<rparr>"
  let ?v = "\<lparr>shape = [1, 2, 1], data = [3, 4]\<rparr>"
  let ?mk = "\<lparr>shape = [1, 2], data = [0, 0]\<rparr>"
  obtain m where m: "MultiHeadAttention_init 1 1 0 (\<lambda>k n. 0) = Inr m"
    by (simp add: MultiHeadAttention_init_def)
  obtain g where g: "GroupedQueryAttention_init 1 1 1 0 (\<lambda>k n. 0) = Inr g"
    by (simp add: GroupedQueryAttention_init_def)
  have f: "mask_fits (Some ?mk) [1, 1, 1, 2]"
    by (simp add: mask_fits_def well_shaped_def broadcast_shapes_def broadcast_dim_def)
  have z: "\<forall>j<2. get ?mk (expand_index (shape ?mk) [0, 0, 0, j]) = 0"
    by (auto simp: less_2_cases_iff expand_index_def get_def)
  have z1: "get ?mk (expand_index [1, 2] [0, 0, 0, 1]) = 0"
    by (simp add: expand_index_def get_def)
  note t = fully_masked_row_is_uniform [of 1 1 "\<lambda>k n. 0" m ?q 1 1 ?k 2 ?v ?mk 0 0 0
      "\<lambda>idx. True" 1 1 g]
  have a: "\<exists>out w. MultiHeadAttention_forward m ?q ?k ?v (Some ?mk) (\<lambda>idx. True) = Inr (out, w)
          \<and> get w [0, 0, 0, 0] = 1 / 2 \<and> get w [0, 0, 0, 1] = 1 / 2"
    using t m f z by force
  have b: "\<exists>out w. GroupedQueryAttention_forward g ?q ?k ?v (Some ?mk) (\<lambda>idx. True) = Inr (out, w)
          \<and> get w [0, 0, 0, 0] = 1 / 2 \<and> get w [0, 0, 0, 1] = 1 / 2"
    using t g f z by force
  from m g f z1 a b show ?thesis by blast
qed

section \<open>Rows of the attention weights\<close>




section \<open>The causal mask\<close>




section \<open>Dependence on the random draw\<close>




section \<open>Weights above the diagonal\<close>

text \<open>
  C1. The notebook documents that a position never sees a later one, its README that the
  scores of future positions are set to minus infinity and that the weights above the
  diagonal are always zero, and its test checks \<^verbatim>\<open>triu(attention, diagonal=1) == 0\<close>. The
  code fills the masked scores with the finite value \<open>- 1e9\<close> instead, and an entry above
  the diagonal is not zero when the allowed scores of its row lie below that value. With
  weights \<open>1 / 2\<close> and \<open>- 1 / 2\<close> for the query and key projections (biases 0, dropout
  probability 0) and the input \<open>((200000), (200000))\<close>, every scaled score is \<open>- 1e10\<close>.
  In row 0 the masked position 1 holds the fill value \<open>- 1e9\<close>, the larger of the two
  scores, and receives more than half of the weight.
\<close>

theorem causal_future_weight_not_zero:
  "\<exists>m out w. CausalSelfAttention_init 1 0
        (\<lambda>k n. if n = 0 then (if k = 0 then 1 / 2 else if k = 1 then - 1 / 2 else 0) else 0)
        = Inr m
     \<and> CausalSelfAttention_forward m \<lparr>shape = [1, 2, 1], data = [200000, 200000]\<rparr>
          (\<lambda>idx. True) = Inr (out, w)
     \<and> 1 / 2 \<le> get w [0, 0, 1] \<and> get w [0, 0, 1] \<noteq> 0"
proof -
  let ?x = "\<lparr>shape = [1, 2, 1], data = [200000, 200000]\<rparr>"
  let ?init = "\<lambda>k n. if n = 0 then (if k = 0 then 1 / 2 else if k = 1 then - 1 / 2 else 0) else 0
      :: real"
  obtain m where m: "CausalSelfAttention_init 1 0 ?init = Inr m"
    by (simp add: CausalSelfAttention_init_def)
  from Causal_scores_example [OF m]
  obtain sc where sc: "CausalSelfAttention_scores m ?x = Inr sc"
    and s00: "get sc [0, 0, 0] = - 10000000000"
    by (elim exE conjE)
  have sx: "shape ?x = [1, 2, 1]" by simp
  let ?W = "\<lambda>sc. tabulate [1, 2, 2]
            (\<lambda>idx. exp (if idx ! 2 \<le> idx ! 1 then get sc idx else - 1000000000)
               / (\<Sum>j\<leftarrow>[0..<2]. exp (if j \<le> idx ! 1
                                        then get sc (idx[2 := j]) else - 1000000000)))"
  from Causal_forward_weights [OF m sx, of "\<lambda>idx. True"]
  obtain sc' out where sc': "CausalSelfAttention_scores m ?x = Inr sc'"
    and fw': "CausalSelfAttention_forward m ?x (\<lambda>idx. True)
        = Inr (out, dropout 0 True (\<lambda>idx. True) (?W sc'))"
    by (elim exE conjE)
  have e: "sc' = sc" using sc sc' by simp
  have fw: "CausalSelfAttention_forward m ?x (\<lambda>idx. True) = Inr (out, ?W sc)"
    using fw' [unfolded e] by simp
  have "get (?W sc) [0, 0, 1]
      = exp (if (1::nat) \<le> 0 then get sc [0, 0, 1] else - 1000000000)
          / (\<Sum>l\<leftarrow>[0..<2]. exp (if l \<le> 0 then get sc [0, 0, l] else - 1000000000))"
    by (rule get_causal_weights) simp_all
  also have "\<dots> = exp (- 1000000000) / (exp (- 10000000000) + exp (- 1000000000))"
    by (simp add: eval_nat_numeral s00)
  finally have w: "get (?W sc) [0, 0, 1]
      = exp (- 1000000000) / (exp (- 10000000000) + exp (- 1000000000))" .
  have le: "exp (- 10000000000 :: real) \<le> exp (- 1000000000)"
    by simp
  have pos: "0 < exp (- 10000000000 :: real) + exp (- 1000000000)"
    by (intro add_pos_pos exp_gt_zero)
  have half: "1 / 2 \<le> get (?W sc) [0, 0, 1]"
    unfolding w using le pos by (simp add: field_simps)
  have "y \<noteq> 0" if "1 / 2 \<le> y" for y :: real
    using that by simp
  from this [OF half] have "get (?W sc) [0, 0, 1] \<noteq> 0" .
  with m fw half show ?thesis by (intro exI conjI)
qed

end
